theory Spec2Isabelle
  imports Complex_Main "HOL-Library.Word" "HOL-Library.Finite_Map" "HOL-Library.Monad_Syntax"
begin

unbundle bit_operations_syntax

section \<open>The packet programs of \<open>XDP_only.py\<close> and \<open>xdp_firewall_shim_con_metriche_v2.py\<close>\<close>

text \<open>
  Both Python scripts carry a C program (the string \<open>bpf_program\<close>) that is attached to the
  XDP hook and run once per received frame. The C is embedded here for the little-endian
  BPF target the scripts compile for: a multi-byte load takes the lowest byte first, and the
  first bit-field declared in a storage unit takes the lowest bits.
\<close>

type_synonym u8 = "8 word"
type_synonym u16 = "16 word"
type_synonym u32 = "32 word"
type_synonym u64 = "64 word"

text \<open>A frame is the byte range from \<open>ctx->data\<close> up to \<open>ctx->data_end\<close>.\<close>

type_synonym frame = "u8 list"

subsection \<open>Memory reads\<close>

text \<open>
  A read of the frame at an offset: \<open>None\<close> is a read at or past \<open>data_end\<close>, the fault
  the header checks of the program are there to exclude.
\<close>

definition load_u8 :: "frame \<Rightarrow> nat \<Rightarrow> u8 option" where
  "load_u8 fr off = (if off < length fr then Some (fr ! off) else None)"

definition load_u16 :: "frame \<Rightarrow> nat \<Rightarrow> u16 option" where
  "load_u16 fr off = do {
     b0 \<leftarrow> load_u8 fr off;
     b1 \<leftarrow> load_u8 fr (off + 1);
     Some (ucast b0 OR push_bit 8 (ucast b1))
   }"

definition load_u32 :: "frame \<Rightarrow> nat \<Rightarrow> u32 option" where
  "load_u32 fr off = do {
     b0 \<leftarrow> load_u8 fr off;
     b1 \<leftarrow> load_u8 fr (off + 1);
     b2 \<leftarrow> load_u8 fr (off + 2);
     b3 \<leftarrow> load_u8 fr (off + 3);
     Some (ucast b0 OR push_bit 8 (ucast b1) OR push_bit 16 (ucast b2) OR push_bit 24 (ucast b3))
   }"

definition bpf_ntohs :: "u16 \<Rightarrow> u16" where
  "bpf_ntohs x = push_bit 8 x OR drop_bit 8 x"

subsection \<open>Constants and header sizes\<close>

definition ETH_P_IP :: u16 where "ETH_P_IP = 0x0800"
definition TIME_WINDOW_NS :: u64 where "TIME_WINDOW_NS = 2000000000"
definition THRESHOLD :: u64 where "THRESHOLD = 10"
definition NEXTHDR_TCP :: u8 where "NEXTHDR_TCP = 6"

text \<open>\<open>sizeof(struct ethhdr)\<close>: two 6-byte addresses and the 2-byte \<open>h_proto\<close>.\<close>
definition sizeof_ethhdr :: nat where "sizeof_ethhdr = 14"

text \<open>\<open>sizeof(struct iphdr)\<close> and \<open>sizeof(struct tcphdr)\<close> of the two shim structs.\<close>
definition sizeof_iphdr :: nat where "sizeof_iphdr = 20"
definition sizeof_tcphdr :: nat where "sizeof_tcphdr = 20"

text \<open>The capacity given to both \<open>BPF_HASH\<close> tables.\<close>
definition MAX_ENTRIES :: nat where "MAX_ENTRIES = 16384"

subsection \<open>The BPF maps\<close>

record rate_val =
  last_ts :: u64
  count :: u64

text \<open>
  \<open>map.update(&key, &val)\<close> on a hash table of fixed capacity: an existing key is
  overwritten; a new key is stored only while the table has room. Otherwise the helper
  returns an error code, which the program never reads, and the table stays as it was.
\<close>

definition bpf_map_update :: "('k, 'v) fmap \<Rightarrow> 'k \<Rightarrow> 'v \<Rightarrow> ('k, 'v) fmap" where
  "bpf_map_update m k v =
     (if k |\<in>| fmdom m \<or> fcard (fmdom m) < MAX_ENTRIES then fmupd k v m else m)"

text \<open>
  \<open>stats_map.lookup(&key)\<close> followed by \<open>if (val) __sync_fetch_and_add(val, 1)\<close> on a
  \<open>BPF_ARRAY\<close>: the lookup gives a null pointer for an index outside the array, and the
  64-bit addition wraps.
\<close>

definition stats_incr :: "u64 list \<Rightarrow> nat \<Rightarrow> u64 list" where
  "stats_incr st key = (if key < length st then st[key := st ! key + 1] else st)"

text \<open>The maps of \<open>XDP_only.py\<close>; the second program adds \<open>ip_blocked_map\<close>.\<close>

record bpf_maps =
  rate_limit_map :: "(u32, rate_val) fmap"
  stats_map :: "u64 list"

record bpf_maps_v2 = bpf_maps +
  ip_blocked_map :: "(u32, u64) fmap"

text \<open>The maps as the loader creates them: empty tables, zeroed arrays of 2 and of 1 slots.\<close>

definition init_maps :: bpf_maps where
  "init_maps = \<lparr>rate_limit_map = fmempty, stats_map = [0, 0]\<rparr>"

definition init_maps_v2 :: bpf_maps_v2 where
  "init_maps_v2 = \<lparr>rate_limit_map = fmempty, stats_map = [0], ip_blocked_map = fmempty\<rparr>"

subsection \<open>\<open>check_rate_limit\<close>\<close>

text \<open>
  The function is the same text in both programs. \<open>now\<close> is the value that
  \<open>bpf_ktime_get_ns()\<close> returns in this call. A found entry is changed through the pointer
  \<open>rv\<close> into the table (the \<open>fmupd\<close>) and then written once more with \<open>update\<close>.
\<close>

definition check_rate_limit ::
  "u64 \<Rightarrow> u32 \<Rightarrow> (u32, rate_val) fmap \<Rightarrow> int \<times> (u32, rate_val) fmap" where
  "check_rate_limit now src_ip m =
     (case fmlookup m src_ip of
        None \<Rightarrow> (0, bpf_map_update m src_ip \<lparr>last_ts = now, count = 1\<rparr>)
      | Some rv \<Rightarrow>
          if now - last_ts rv > TIME_WINDOW_NS then
            (let rv1 = rv\<lparr>last_ts := now, count := 1\<rparr>
             in (0, bpf_map_update (fmupd src_ip rv1 m) src_ip rv1))
          else
            (let rv1 = rv\<lparr>count := count rv + 1\<rparr>;
                 m1 = bpf_map_update (fmupd src_ip rv1 m) src_ip rv1
             in (if count rv1 > THRESHOLD then 1 else 0, m1)))"

subsection \<open>Header checks\<close>

datatype xdp_action = XDP_PASS | XDP_DROP

text \<open>
  The header checks that open both \<open>xdp_simple_firewall\<close> and \<open>xdp_firewall\<close>, up to the
  check of \<open>tcph + 1\<close>. The outer \<open>None\<close> is a read outside the frame; \<open>Some None\<close> is one
  of the five \<open>return XDP_PASS\<close>; \<open>Some (Some off)\<close> gives the offset of \<open>tcph\<close>.
  \<open>ihl\<close> is the low half of the first byte of the IPv4 header.
\<close>

definition parse_headers :: "frame \<Rightarrow> nat option option" where
  "parse_headers fr =
     (if sizeof_ethhdr > length fr then Some None
      else do {
        h_proto \<leftarrow> load_u16 fr 12;
        if bpf_ntohs h_proto \<noteq> ETH_P_IP then Some None
        else if sizeof_ethhdr + sizeof_iphdr > length fr then Some None
        else do {
          protocol \<leftarrow> load_u8 fr (sizeof_ethhdr + 9);
          if protocol \<noteq> NEXTHDR_TCP then Some None
          else do {
            vihl \<leftarrow> load_u8 fr sizeof_ethhdr;
            let tcph = sizeof_ethhdr + unat (vihl AND 15) * 4;
            if tcph + sizeof_tcphdr > length fr then Some None
            else Some (Some tcph)
          }
        }
      })"

text \<open>
  \<open>tcph->syn && !tcph->ack\<close>: the flags are bits 9 and 12 of the 16-bit unit at offset 12
  of the TCP header (after \<open>res1:4\<close>, \<open>doff:4\<close> and \<open>fin:1\<close>; \<open>rst\<close> and \<open>psh\<close> in between).
\<close>

definition pure_syn :: "frame \<Rightarrow> nat \<Rightarrow> bool option" where
  "pure_syn fr tcph = do {
     flags \<leftarrow> load_u16 fr (tcph + 12);
     Some (bit flags 9 \<and> \<not> bit flags 12)
   }"

text \<open>\<open>iph->saddr\<close>, at offset 12 of the IPv4 header.\<close>

definition ip_saddr :: "frame \<Rightarrow> u32 option" where
  "ip_saddr fr = load_u32 fr (sizeof_ethhdr + 12)"

subsection \<open>\<open>xdp_simple_firewall\<close> (\<open>XDP_only.py\<close>)\<close>

definition xdp_simple_firewall ::
  "u64 \<Rightarrow> frame \<Rightarrow> bpf_maps \<Rightarrow> (xdp_action \<times> bpf_maps) option" where
  "xdp_simple_firewall now fr s = do {
     p \<leftarrow> parse_headers fr;
     case p of
       None \<Rightarrow> Some (XDP_PASS, s)
     | Some tcph \<Rightarrow> do {
         is_syn \<leftarrow> pure_syn fr tcph;
         if is_syn then do {
           let s1 = s\<lparr>stats_map := stats_incr (stats_map s) 0\<rparr>;
           src_ip \<leftarrow> ip_saddr fr;
           let (r, m) = check_rate_limit now src_ip (rate_limit_map s1);
           let s2 = s1\<lparr>rate_limit_map := m\<rparr>;
           if r \<noteq> 0 then Some (XDP_DROP, s2\<lparr>stats_map := stats_incr (stats_map s2) 1\<rparr>)
           else Some (XDP_PASS, s2)
         }
         else Some (XDP_PASS, s)
       }
   }"

subsection \<open>\<open>xdp_firewall\<close> (\<open>xdp_firewall_shim_con_metriche_v2.py\<close>)\<close>

text \<open>
  The counter in slot 0 is incremented for every frame that passes the header checks,
  outside the two \<open>if (tcph->syn && !tcph->ack)\<close>. The \<open>bpf_trace_printk\<close> line writes to
  the trace pipe only and is left out.
\<close>

definition xdp_firewall ::
  "u64 \<Rightarrow> frame \<Rightarrow> bpf_maps_v2 \<Rightarrow> (xdp_action \<times> bpf_maps_v2) option" where
  "xdp_firewall now fr s = do {
     p \<leftarrow> parse_headers fr;
     case p of
       None \<Rightarrow> Some (XDP_PASS, s)
     | Some tcph \<Rightarrow> do {
         src_ip \<leftarrow> ip_saddr fr;
         is_syn \<leftarrow> pure_syn fr tcph;
         let s1 = s\<lparr>stats_map := stats_incr (stats_map s) 0\<rparr>;
         if is_syn then
           (case fmlookup (ip_blocked_map s1) src_ip of
              Some blocked \<Rightarrow> Some (XDP_DROP, s1)
            | None \<Rightarrow>
                (let (r, m) = check_rate_limit now src_ip (rate_limit_map s1);
                     s2 = s1\<lparr>rate_limit_map := m\<rparr>
                 in if r \<noteq> 0
                    then Some (XDP_DROP,
                           s2\<lparr>ip_blocked_map := bpf_map_update (ip_blocked_map s2) src_ip 1\<rparr>)
                    else Some (XDP_PASS, s2)))
         else Some (XDP_PASS, s1)
       }
   }"

subsection \<open>The hook: one call per received frame\<close>

text \<open>
  The kernel calls the program once for each frame, in the order of arrival; an event is a
  frame with the clock value of its call. The run collects the verdicts and stops at a
  faulting read.
\<close>

fun run_simple :: "bpf_maps \<Rightarrow> (u64 \<times> frame) list \<Rightarrow> (xdp_action list \<times> bpf_maps) option" where
  "run_simple s [] = Some ([], s)"
| "run_simple s ((now, fr) # es) = do {
     (v, s1) \<leftarrow> xdp_simple_firewall now fr s;
     (vs, s2) \<leftarrow> run_simple s1 es;
     Some (v # vs, s2)
   }"

fun run_v2 :: "bpf_maps_v2 \<Rightarrow> (u64 \<times> frame) list \<Rightarrow> (xdp_action list \<times> bpf_maps_v2) option" where
  "run_v2 s [] = Some ([], s)"
| "run_v2 s ((now, fr) # es) = do {
     (v, s1) \<leftarrow> xdp_firewall now fr s;
     (vs, s2) \<leftarrow> run_v2 s1 es;
     Some (v # vs, s2)
   }"

text \<open>Successive calls of \<open>check_rate_limit\<close> for one source, at the given clock values.\<close>

fun rate_limit_calls ::
  "u32 \<Rightarrow> (u32, rate_val) fmap \<Rightarrow> u64 list \<Rightarrow> int list \<times> (u32, rate_val) fmap" where
  "rate_limit_calls src_ip m [] = ([], m)"
| "rate_limit_calls src_ip m (now # ts) =
     (let (r, m1) = check_rate_limit now src_ip m;
          (rs, m2) = rate_limit_calls src_ip m1 ts
      in (r # rs, m2))"

subsection \<open>What the header checks make of a frame\<close>

text \<open>
  The reads of both programs after the header checks, put together: \<open>None\<close> for a frame
  that leaves by one of the early \<open>return XDP_PASS\<close>, and otherwise the source address
  with the value of \<open>tcph->syn && !tcph->ack\<close>.
\<close>

definition header_view :: "frame \<Rightarrow> (u32 \<times> bool) option" where
  "header_view fr =
     (case parse_headers fr of
        Some (Some tcph) \<Rightarrow>
          (case (ip_saddr fr, pure_syn fr tcph) of
             (Some a, Some b) \<Rightarrow> Some (a, b)
           | _ \<Rightarrow> None)
      | _ \<Rightarrow> None)"

text \<open>The \<open>ihl\<close> field of a frame of at least 15 bytes.\<close>

definition ihl :: "frame \<Rightarrow> nat" where
  "ihl fr = unat (fr ! sizeof_ethhdr AND 15)"

text \<open>
  A frame too short at one of the three stages: for the Ethernet header, for the IPv4
  header behind it, or for a TCP header of 20 bytes at the offset that \<open>ihl\<close> gives.
\<close>

definition too_short :: "frame \<Rightarrow> bool" where
  "too_short fr \<longleftrightarrow>
     length fr < sizeof_ethhdr \<or>
     length fr < sizeof_ethhdr + sizeof_iphdr \<or>
     length fr < sizeof_ethhdr + ihl fr * 4 + sizeof_tcphdr"

text \<open>
  The first call for a source opens a window when it stores a fresh record: the source
  has no entry and the table has room, or its entry is older than the time window.
\<close>

definition opens_window :: "(u32, rate_val) fmap \<Rightarrow> u32 \<Rightarrow> u64 \<Rightarrow> bool" where
  "opens_window m src_ip now =
     (case fmlookup m src_ip of
        None \<Rightarrow> fcard (fmdom m) < MAX_ENTRIES
      | Some rv \<Rightarrow> now - last_ts rv > TIME_WINDOW_NS)"

text \<open>
  The frames that pass the header checks (TCP over IPv4 for the programs), and those of
  them with \<open>tcph->syn && !tcph->ack\<close>; their numbers in a run.
\<close>

definition is_tcp :: "frame \<Rightarrow> bool" where
  "is_tcp fr = (header_view fr \<noteq> None)"

definition is_pure_syn :: "frame \<Rightarrow> bool" where
  "is_pure_syn fr = (case header_view fr of Some (a, b) \<Rightarrow> b | None \<Rightarrow> False)"

definition count_tcp :: "(u64 \<times> frame) list \<Rightarrow> nat" where
  "count_tcp es = length (filter (\<lambda>e. is_tcp (snd e)) es)"

definition count_syn :: "(u64 \<times> frame) list \<Rightarrow> nat" where
  "count_syn es = length (filter (\<lambda>e. is_pure_syn (snd e)) es)"

text \<open>
  The admitted SYNs of a run with its verdicts: the frames taken for a pure SYN that got
  \<open>XDP_PASS\<close>.
\<close>

definition count_admitted :: "(u64 \<times> frame) list \<Rightarrow> xdp_action list \<Rightarrow> nat" where
  "count_admitted es vs =
     length (filter (\<lambda>(e, x). is_pure_syn (snd e) \<and> x = XDP_PASS) (zip es vs))"

subsection \<open>Sample frames\<close>

text \<open>
  A TCP segment from 10.0.0.1 to 10.0.0.2 in an Ethernet frame of 54 bytes, with the byte
  of the TCP flags left open: \<open>0x02\<close> is SYN, \<open>0x10\<close> is ACK.
\<close>

definition tcp_frame :: "u8 \<Rightarrow> frame" where
  "tcp_frame flags =
     [0, 0, 0, 0, 0, 0,  0, 0, 0, 0, 0, 0,  0x08, 0x00,
      0x45, 0, 0, 40,  0, 0, 0, 0,  64, 6, 0, 0,  10, 0, 0, 1,  10, 0, 0, 2,
      0x30, 0x39, 0, 80,  0, 0, 0, 0,  0, 0, 0, 0,  0x50, flags, 0xFF, 0xFF,  0, 0, 0, 0]"

definition syn_frame :: frame where "syn_frame = tcp_frame 0x02"
definition ack_frame :: frame where "ack_frame = tcp_frame 0x10"

text \<open>The address 10.0.0.1 as \<open>iph->saddr\<close> reads it.\<close>

definition sample_src :: u32 where "sample_src = 0x0100000A"

text \<open>
  A frame of 34 bytes: an Ethernet header and an IPv4 header that names TCP, with \<open>ihl\<close> 0
  and the source address 10.2.0.1.
\<close>

definition ihl0_frame :: frame where
  "ihl0_frame =
     [0, 0, 0, 0, 0, 0,  0, 0, 0, 0, 0, 0,  0x08, 0x00,
      0x40, 0, 0, 20,  0, 0, 0, 0,  64, 6, 0, 0,  10, 2, 0, 1,  10, 0, 0, 2]"

definition ihl0_src :: u32 where "ihl0_src = 0x0100020A"

text \<open>The first 40 bytes of \<open>syn_frame\<close>: the TCP header is cut off after 6 bytes.\<close>

definition cut_frame :: frame where "cut_frame = take 40 syn_frame"

section \<open>The monitoring scripts\<close>

subsection \<open>Python values and exceptions\<close>

text \<open>
  Python integers are unbounded; a float is taken as the real number it stands for, so
  the rounding of \<open>/\<close> and \<open>*\<close> is not modelled. An exception that the code does not
  catch ends the script and is the \<open>Inl\<close> of a result.
\<close>

datatype py_error = IndexError | ZeroDivisionError | CalledProcessError

definition py_bind :: "py_error + 'a \<Rightarrow> ('a \<Rightarrow> py_error + 'b) \<Rightarrow> py_error + 'b" where
  "py_bind r f = (case r of Inl e \<Rightarrow> Inl e | Inr x \<Rightarrow> f x)"

text \<open>\<open>xs[-1]\<close>\<close>

definition py_last :: "'a list \<Rightarrow> py_error + 'a" where
  "py_last xs = (if xs = [] then Inl IndexError else Inr (last xs))"

text \<open>\<open>a / b\<close>\<close>

definition py_truediv :: "real \<Rightarrow> real \<Rightarrow> py_error + real" where
  "py_truediv a b = (if b = 0 then Inl ZeroDivisionError else Inr (a / b))"

subsection \<open>The sampling loop reads the counters\<close>

text \<open>
  \<open>b["stats_map"][k].value\<close> is the unsigned value of slot \<open>k\<close>, and
  \<open>len(b["ip_blocked_map"])\<close> the number of keys of the table.
\<close>

definition stats_value :: "u64 list \<Rightarrow> nat \<Rightarrow> int" where
  "stats_value st k = int (unat (st ! k))"

definition blocked_len :: "bpf_maps_v2 \<Rightarrow> int" where
  "blocked_len s = int (fcard (fmdom (ip_blocked_map s)))"

subsection \<open>The final statistics\<close>

text \<open>
  \<open>(accepted / syn_totals[-1] * 100) if syn_totals[-1] > 0 else 0\<close>, with
  \<open>total_syn\<close> for \<open>syn_totals[-1]\<close>, as in \<open>XDP_only.py\<close> and
  \<open>xdp_firewall_shim_con_metriche_v2.py\<close>.
\<close>

definition success_rate :: "int \<Rightarrow> int \<Rightarrow> py_error + real" where
  "success_rate accepted total_syn =
     (if total_syn > 0
      then py_bind (py_truediv (of_int accepted) (of_int total_syn)) (\<lambda>q. Inr (q * 100))
      else Inr 0)"

text \<open>The column \<open>"Value"\<close> of the table that is printed at the end.\<close>

record report =
  SYN_Total :: int
  SYN_Blocked :: int
  SYN_Accepted :: int
  Success_Rate :: real
  Avg_CPU :: real
  Avg_PPS :: real

text \<open>
  The \<open>except KeyboardInterrupt\<close> block of \<open>XDP_only.py\<close>, from the lists that the loop
  has filled; \<open>xdp_firewall_shim_con_metriche_v2.py\<close> has the same block, with
  \<open>syn_counts\<close> and \<open>blocked_counts\<close> for the first two lists.
\<close>

definition summary ::
  "int list \<Rightarrow> int list \<Rightarrow> real list \<Rightarrow> int list \<Rightarrow> py_error + report" where
  "summary syn_totals syn_drops cpu_usages pps_rates =
     py_bind (py_last syn_totals) (\<lambda>total_syn.
     py_bind (py_last syn_drops) (\<lambda>dropped.
     let accepted = total_syn - dropped in
     py_bind (success_rate accepted total_syn) (\<lambda>rate.
     py_bind (py_truediv (sum_list cpu_usages) (real (length cpu_usages))) (\<lambda>avg_cpu.
     py_bind (py_truediv (of_int (sum_list pps_rates)) (real (length pps_rates))) (\<lambda>avg_pps.
     Inr \<lparr>SYN_Total = total_syn, SYN_Blocked = dropped, SYN_Accepted = accepted,
          Success_Rate = rate, Avg_CPU = avg_cpu, Avg_PPS = avg_pps\<rparr>)))))"

text \<open>
  The sampling loops of the two scripts, up to the interrupt. A tick is one completed pass
  of \<open>while True\<close>: the reading of \<open>psutil.cpu_percent\<close> and the maps as the pass reads
  them. Each pass appends the counter values and \<open>pps = total - prev_total\<close> to the
  lists; \<open>timestamps\<close> is used by the plots only and is left out. The interrupt is taken
  between two passes, and the \<open>except\<close> block then builds the table from the lists.
\<close>

fun pps_of :: "int \<Rightarrow> int list \<Rightarrow> int list" where
  "pps_of prev_total [] = []"
| "pps_of prev_total (total_syn # rest) = (total_syn - prev_total) # pps_of total_syn rest"

definition monitor_xdp_only :: "(real \<times> bpf_maps) list \<Rightarrow> py_error + report" where
  "monitor_xdp_only ticks =
     (let syn_totals = map (\<lambda>(cpu_usage, s). stats_value (stats_map s) 0) ticks;
          syn_drops = map (\<lambda>(cpu_usage, s). stats_value (stats_map s) 1) ticks;
          cpu_usages = map (\<lambda>(cpu_usage, s). cpu_usage) ticks;
          pps_rates = pps_of 0 syn_totals
      in summary syn_totals syn_drops cpu_usages pps_rates)"

definition monitor_v2 :: "(real \<times> bpf_maps_v2) list \<Rightarrow> py_error + report" where
  "monitor_v2 ticks =
     (let syn_counts = map (\<lambda>(cpu_usage, s). stats_value (stats_map s) 0) ticks;
          blocked_counts = map (\<lambda>(cpu_usage, s). blocked_len s) ticks;
          cpu_usages = map (\<lambda>(cpu_usage, s). cpu_usage) ticks;
          pps_rates = pps_of 0 syn_counts
      in summary syn_counts blocked_counts cpu_usages pps_rates)"

text \<open>
  The same block of \<open>monitor_iptables\<close> in \<open>iptables_only.py\<close>. The total, the success
  rate and the two averages are guarded against empty lists; the two entries
  \<open>syn_drops[-1]\<close> and \<open>syn_accepts[-1]\<close> of the table are not.
\<close>

definition monitor_iptables_summary ::
  "int list \<Rightarrow> int list \<Rightarrow> real list \<Rightarrow> int list \<Rightarrow> py_error + report" where
  "monitor_iptables_summary syn_accepts syn_drops cpu_usages pps_rates =
     py_bind (if syn_accepts \<noteq> [] \<and> syn_drops \<noteq> []
              then py_bind (py_last syn_accepts) (\<lambda>a.
                   py_bind (py_last syn_drops) (\<lambda>d. Inr (a + d)))
              else Inr 0) (\<lambda>total_syn.
     py_bind (if total_syn > 0
              then py_bind (py_last syn_accepts) (\<lambda>a.
                   py_bind (py_truediv (of_int a) (of_int total_syn)) (\<lambda>q. Inr (q * 100)))
              else Inr 0) (\<lambda>rate.
     py_bind (py_last syn_drops) (\<lambda>dropped.
     py_bind (py_last syn_accepts) (\<lambda>accepted.
     py_bind (if cpu_usages \<noteq> []
              then py_truediv (sum_list cpu_usages) (real (length cpu_usages))
              else Inr 0) (\<lambda>avg_cpu.
     py_bind (if pps_rates \<noteq> []
              then py_truediv (of_int (sum_list pps_rates)) (real (length pps_rates))
              else Inr 0) (\<lambda>avg_pps.
     Inr \<lparr>SYN_Total = total_syn, SYN_Blocked = dropped, SYN_Accepted = accepted,
          Success_Rate = rate, Avg_CPU = avg_cpu, Avg_PPS = avg_pps\<rparr>))))))"

section \<open>\<open>setup_iptables\<close> (\<open>iptables_only.py\<close>)\<close>

subsection \<open>The rule table that the commands act on\<close>

text \<open>
  \<open>iptables\<close> is a program outside the repository. The part of it that the five commands
  of \<open>setup_iptables\<close> use is modelled after its manual: a rule has matches and a target;
  \<open>-F\<close> empties every chain, \<open>-X\<close> deletes the chains that are not built in, and
  \<open>-A INPUT\<close> puts a rule at the end of the chain \<open>INPUT\<close>.
\<close>

datatype ipt_target = ACCEPT | DROP

record ipt_rule =
  r_proto :: "string option"
  r_syn :: bool
  r_limit :: "string option"
  r_limit_burst :: "string option"
  r_target :: "ipt_target option"

record ipt_table =
  INPUT :: "ipt_rule list"
  other_builtin :: "(string \<times> ipt_rule list) list"
  user_chains :: "(string \<times> ipt_rule list) list"

definition no_rule :: ipt_rule where
  "no_rule = \<lparr>r_proto = None, r_syn = False, r_limit = None, r_limit_burst = None,
              r_target = None\<rparr>"

text \<open>The options of a rule, as far as the script uses them; any other word is refused.\<close>

fun rule_of_args :: "string list \<Rightarrow> ipt_rule \<Rightarrow> ipt_rule option" where
  "rule_of_args [] r = Some r"
| "rule_of_args [a] r = (if a = ''--syn'' then Some (r\<lparr>r_syn := True\<rparr>) else None)"
| "rule_of_args (a # b # rest) r =
     (if a = ''--syn'' then rule_of_args (b # rest) (r\<lparr>r_syn := True\<rparr>)
      else if a = ''-p'' then rule_of_args rest (r\<lparr>r_proto := Some b\<rparr>)
      else if a = ''-m'' \<and> b = ''limit'' then rule_of_args rest r
      else if a = ''--limit'' then rule_of_args rest (r\<lparr>r_limit := Some b\<rparr>)
      else if a = ''--limit-burst'' then rule_of_args rest (r\<lparr>r_limit_burst := Some b\<rparr>)
      else if a = ''-j'' \<and> b = ''ACCEPT'' then rule_of_args rest (r\<lparr>r_target := Some ACCEPT\<rparr>)
      else if a = ''-j'' \<and> b = ''DROP'' then rule_of_args rest (r\<lparr>r_target := Some DROP\<rparr>)
      else None)"

definition iptables :: "string list \<Rightarrow> ipt_table \<Rightarrow> ipt_table option" where
  "iptables args t =
     (if args = [''-F''] then
        Some (t\<lparr>INPUT := [], other_builtin := map (\<lambda>(c, rs). (c, [])) (other_builtin t),
                user_chains := map (\<lambda>(c, rs). (c, [])) (user_chains t)\<rparr>)
      else if args = [''-X''] then Some (t\<lparr>user_chains := []\<rparr>)
      else if take 2 args = [''-A'', ''INPUT''] then
        map_option (\<lambda>r. t\<lparr>INPUT := INPUT t @ [r]\<rparr>) (rule_of_args (drop 2 args) no_rule)
      else None)"

text \<open>
  \<open>subprocess.run(cmd, check=True)\<close>: a command that fails raises
  \<open>CalledProcessError\<close>.
\<close>

definition subprocess_run :: "string list \<Rightarrow> ipt_table \<Rightarrow> py_error + ipt_table" where
  "subprocess_run cmd t =
     (if take 2 cmd = [''sudo'', ''iptables''] then
        (case iptables (drop 2 cmd) t of None \<Rightarrow> Inl CalledProcessError | Some t1 \<Rightarrow> Inr t1)
      else Inl CalledProcessError)"

subsection \<open>The function\<close>

definition setup_iptables :: "ipt_table \<Rightarrow> py_error + ipt_table" where
  "setup_iptables t =
     py_bind (subprocess_run [''sudo'', ''iptables'', ''-F''] t) (\<lambda>t1.
     py_bind (subprocess_run [''sudo'', ''iptables'', ''-X''] t1) (\<lambda>t2.
     py_bind (subprocess_run
       [''sudo'', ''iptables'', ''-A'', ''INPUT'', ''-p'', ''tcp'', ''--syn'',
        ''-m'', ''limit'', ''--limit'', ''10/second'', ''--limit-burst'', ''10'',
        ''-j'', ''ACCEPT''] t2) (\<lambda>t3.
     py_bind (subprocess_run
       [''sudo'', ''iptables'', ''-A'', ''INPUT'', ''-p'', ''tcp'', ''--syn'',
        ''-j'', ''DROP''] t3) (\<lambda>t4.
     subprocess_run [''sudo'', ''iptables'', ''-A'', ''INPUT'', ''-j'', ''ACCEPT''] t4))))"

subsection \<open>How a chain decides a packet\<close>

text \<open>
  Of a packet the rules see the protocol and whether it is a SYN in the sense of \<open>--syn\<close>.
  Whether the \<open>limit\<close> match of a rule lets the packet through depends on the packets
  before it; \<open>in_limit\<close> gives that answer for each rule. The first rule that matches decides;
  \<open>None\<close> leaves the packet to the policy of the chain.
\<close>

record ipt_packet =
  p_proto :: string
  p_syn :: bool

definition rule_matches :: "(ipt_rule \<Rightarrow> bool) \<Rightarrow> ipt_rule \<Rightarrow> ipt_packet \<Rightarrow> bool" where
  "rule_matches in_limit r p \<longleftrightarrow>
     (case r_proto r of None \<Rightarrow> True | Some pr \<Rightarrow> pr = p_proto p) \<and>
     (if r_syn r then p_syn p else True) \<and>
     (if r_limit r = None then True else in_limit r)"

fun chain_verdict ::
  "(ipt_rule \<Rightarrow> bool) \<Rightarrow> ipt_rule list \<Rightarrow> ipt_packet \<Rightarrow> ipt_target option" where
  "chain_verdict in_limit [] p = None"
| "chain_verdict in_limit (r # rs) p =
     (if rule_matches in_limit r p \<and> r_target r \<noteq> None then r_target r
      else chain_verdict in_limit rs p)"

text \<open>The three rules, as values.\<close>

definition syn_limit_rule :: ipt_rule where
  "syn_limit_rule = \<lparr>r_proto = Some ''tcp'', r_syn = True, r_limit = Some ''10/second'',
                     r_limit_burst = Some ''10'', r_target = Some ACCEPT\<rparr>"

definition syn_drop_rule :: ipt_rule where
  "syn_drop_rule = \<lparr>r_proto = Some ''tcp'', r_syn = True, r_limit = None,
                    r_limit_burst = None, r_target = Some DROP\<rparr>"

definition accept_rule :: ipt_rule where
  "accept_rule = \<lparr>r_proto = None, r_syn = False, r_limit = None,
                  r_limit_burst = None, r_target = Some ACCEPT\<rparr>"

subsection \<open>States and frames for the rate limiter's corner cases\<close>

text \<open>A table at its capacity: one record for each of the addresses 0 to 16383.\<close>

definition full_table :: "(u32, rate_val) fmap" where
  "full_table =
     fmap_of_list (map (\<lambda>i. (of_nat i, \<lparr>last_ts = 0, count = 1\<rparr>)) [0..<MAX_ENTRIES])"

definition full_maps :: bpf_maps where
  "full_maps = \<lparr>rate_limit_map = full_table, stats_map = [0, 0]\<rparr>"

definition full_maps_v2 :: bpf_maps_v2 where
  "full_maps_v2 = \<lparr>rate_limit_map = full_table, stats_map = [0], ip_blocked_map = fmempty\<rparr>"

text \<open>The maps after 50 SYNs of the sample source in a window that began at 1000 ns.\<close>

definition over_limit_maps :: bpf_maps where
  "over_limit_maps =
     \<lparr>rate_limit_map = fmupd sample_src \<lparr>last_ts = 1000, count = 50\<rparr> fmempty,
      stats_map = [50, 40]\<rparr>"

text \<open>A frame that the programs take for a pure SYN of a source without a record in \<open>m\<close>.\<close>

definition syn_of_new_source :: "(u32, rate_val) fmap \<Rightarrow> frame \<Rightarrow> bool" where
  "syn_of_new_source m fr =
     (case header_view fr of
        Some (a, is_syn) \<Rightarrow> is_syn \<and> fmlookup m a = None
      | None \<Rightarrow> False)"

text \<open>A frame whose source, if it has one for the programs, is not a key of \<open>b\<close>.\<close>

definition not_blocked :: "(u32, u64) fmap \<Rightarrow> frame \<Rightarrow> bool" where
  "not_blocked b fr =
     (case header_view fr of Some (a, is_syn) \<Rightarrow> a |\<notin>| fmdom b | None \<Rightarrow> True)"

text \<open>
  The maps of the two programs after eleven SYNs of the sample source, all at clock value 0,
  on fresh maps (lemmas \<open>run_simple_eleven_syns\<close> and \<open>run_v2_eleven_syns\<close>).
\<close>

definition burst_maps :: bpf_maps where
  "burst_maps =
     \<lparr>rate_limit_map = fmupd sample_src \<lparr>last_ts = 0, count = 11\<rparr> fmempty,
      stats_map = [11, 1]\<rparr>"

definition blocked_maps_v2 :: bpf_maps_v2 where
  "blocked_maps_v2 =
     \<lparr>rate_limit_map = fmupd sample_src \<lparr>last_ts = 0, count = 11\<rparr> fmempty,
      stats_map = [11],
      ip_blocked_map = fmupd sample_src 1 fmempty\<rparr>"

text \<open>
  The maps of the two programs after 50 SYNs of the sample source, all at clock value 0, on
  fresh maps (lemmas \<open>run_simple_fifty_syns\<close> and \<open>run_v2_fifty_syns\<close>).
\<close>

definition flood_maps :: bpf_maps where
  "flood_maps =
     \<lparr>rate_limit_map = fmupd sample_src \<lparr>last_ts = 0, count = 50\<rparr> fmempty,
      stats_map = [50, 40]\<rparr>"

definition flood_maps_v2 :: bpf_maps_v2 where
  "flood_maps_v2 =
     \<lparr>rate_limit_map = fmupd sample_src \<lparr>last_ts = 0, count = 11\<rparr> fmempty,
      stats_map = [50],
      ip_blocked_map = fmupd sample_src 1 fmempty\<rparr>"

text \<open>A rule table without rules.\<close>

definition empty_table :: ipt_table where
  "empty_table = \<lparr>INPUT = [], other_builtin = [(''FORWARD'', []), (''OUTPUT'', [])],
                  user_chains = []\<rparr>"

section \<open>Properties\<close>

subsection \<open>The rate limiter\<close>

lemma bpf_map_update_present:
  "k |\<in>| fmdom m \<Longrightarrow> bpf_map_update m k v = fmupd k v m"
  by (simp add: bpf_map_update_def)

lemma bpf_map_update_fmupd_same [simp]:
  "bpf_map_update (fmupd k v m) k v = fmupd k v m"
  by (simp add: bpf_map_update_def)

lemma check_rate_limit_absent:
  "fmlookup m src = None \<Longrightarrow>
   check_rate_limit now src m = (0, bpf_map_update m src \<lparr>last_ts = now, count = 1\<rparr>)"
  by (simp add: check_rate_limit_def)

lemma check_rate_limit_expired:
  "fmlookup m src = Some rv \<Longrightarrow> now - last_ts rv > TIME_WINDOW_NS \<Longrightarrow>
   check_rate_limit now src m = (0, fmupd src \<lparr>last_ts = now, count = 1\<rparr> m)"
  by (cases rv) (simp add: check_rate_limit_def)

lemma check_rate_limit_open:
  "fmlookup m src = Some rv \<Longrightarrow> \<not> now - last_ts rv > TIME_WINDOW_NS \<Longrightarrow>
   check_rate_limit now src m =
     (if count rv + 1 > THRESHOLD then 1 else 0, fmupd src (rv\<lparr>count := count rv + 1\<rparr>) m)"
  by (simp add: check_rate_limit_def Let_def)

lemma unat_u64_succ:
  "unat (c :: u64) + 1 < 2 ^ 64 \<Longrightarrow> unat (c + 1) = Suc (unat c)"
  using unat_add_lem [of c 1] by simp

lemma over_threshold_iff:
  "unat (c :: u64) + 1 < 2 ^ 64 \<Longrightarrow> THRESHOLD < c + 1 \<longleftrightarrow> 10 \<le> unat c"
  by (simp add: THRESHOLD_def word_less_nat_alt unat_u64_succ) arith

lemma rate_limit_calls_open:
  assumes "fmlookup m src = Some rv"
    and "\<forall>t \<in> set ts. \<not> TIME_WINDOW_NS < t - last_ts rv"
    and "unat (count rv) + length ts < 2 ^ 64"
  shows "fst (rate_limit_calls src m ts) =
           map (\<lambda>k. if 10 \<le> unat (count rv) + k then 1 else 0) [0..<length ts]"
  using assms
proof (induction ts arbitrary: m rv)
  case Nil
  then show ?case by simp
next
  case (Cons t ts)
  let ?rv = "rv\<lparr>count := count rv + 1\<rparr>"
  let ?m = "fmupd src ?rv m"
  from Cons.prems have small: "unat (count rv) + 1 < 2 ^ 64" by simp
  have step: "check_rate_limit t src m = (if 10 \<le> unat (count rv) then 1 else 0, ?m)"
    using Cons.prems check_rate_limit_open [of m src rv t] over_threshold_iff [OF small]
    by simp
  have cnt: "unat (count rv + 1) = Suc (unat (count rv))"
    by (rule unat_u64_succ [OF small])
  have "fst (rate_limit_calls src ?m ts) =
          map (\<lambda>k. if 10 \<le> unat (count ?rv) + k then 1 else 0) [0..<length ts]"
  proof (rule Cons.IH)
    show "fmlookup ?m src = Some ?rv" by simp
    show "\<forall>t \<in> set ts. \<not> TIME_WINDOW_NS < t - last_ts ?rv" using Cons.prems by simp
    show "unat (count ?rv) + length ts < 2 ^ 64" using Cons.prems cnt by simp
  qed
  then show ?case
    by (simp add: step cnt map_upt_Suc split_beta del: upt_Suc)
qed

lemma rate_limit_calls_window:
  assumes opens: "opens_window m src t0"
    and same_window: "\<forall>t \<in> set ts. t - t0 \<le> TIME_WINDOW_NS"
    and no_wrap: "length ts < 2 ^ 64 - 1"
  shows "fst (rate_limit_calls src m (t0 # ts)) =
           map (\<lambda>k. if k < 10 then 0 else 1) [0..<Suc (length ts)]"
proof -
  let ?rv = "\<lparr>last_ts = t0, count = 1\<rparr>"
  let ?m = "fmupd src ?rv m"
  have first: "check_rate_limit t0 src m = (0, ?m)"
    using opens
    by (auto simp: opens_window_def check_rate_limit_absent check_rate_limit_expired
          bpf_map_update_def split: option.splits)
  have "fst (rate_limit_calls src ?m ts) =
          map (\<lambda>k. if 10 \<le> unat (count ?rv) + k then 1 else 0) [0..<length ts]"
    using same_window no_wrap by (intro rate_limit_calls_open) (auto simp: not_less)
  then show ?thesis
    by (simp add: first map_upt_Suc split_beta del: upt_Suc) 
qed

subsection \<open>The header checks never read past the frame\<close>

lemma load_u8_Some: "off < length fr \<Longrightarrow> load_u8 fr off = Some (fr ! off)"
  by (simp add: load_u8_def)

lemma load_u16_Some: "off + 1 < length fr \<Longrightarrow> \<exists>w. load_u16 fr off = Some w"
  by (simp add: load_u16_def load_u8_def)

lemma load_u32_Some: "off + 3 < length fr \<Longrightarrow> \<exists>w. load_u32 fr off = Some w"
  by (simp add: load_u32_def load_u8_def)

lemma parse_headers_cases:
  "parse_headers fr = Some None \<or>
   parse_headers fr = Some (Some (sizeof_ethhdr + ihl fr * 4)) \<and>
     sizeof_ethhdr + sizeof_iphdr \<le> length fr \<and>
     sizeof_ethhdr + ihl fr * 4 + sizeof_tcphdr \<le> length fr"
proof (cases "sizeof_ethhdr > length fr")
  case True
  then show ?thesis by (simp add: parse_headers_def)
next
  case long: False
  then obtain w where w: "load_u16 fr 12 = Some w"
    using load_u16_Some [of 12 fr] by (auto simp: sizeof_ethhdr_def)
  show ?thesis
  proof (cases "bpf_ntohs w \<noteq> ETH_P_IP \<or> sizeof_ethhdr + sizeof_iphdr > length fr")
    case True
    then show ?thesis using long w by (auto simp: parse_headers_def)
  next
    case ip: False
    then have p: "load_u8 fr (sizeof_ethhdr + 9) = Some (fr ! (sizeof_ethhdr + 9))"
      and v: "load_u8 fr sizeof_ethhdr = Some (fr ! sizeof_ethhdr)"
      by (simp_all add: load_u8_Some sizeof_ethhdr_def sizeof_iphdr_def)
    show ?thesis
      using long w ip p v
      by (simp add: parse_headers_def ihl_def Let_def)
  qed
qed

lemma header_view_cases:
  "parse_headers fr = Some None \<and> header_view fr = None \<or>
   (\<exists>a b. parse_headers fr = Some (Some (sizeof_ethhdr + ihl fr * 4)) \<and>
      ip_saddr fr = Some a \<and> pure_syn fr (sizeof_ethhdr + ihl fr * 4) = Some b \<and>
      header_view fr = Some (a, b))"
proof -
  from parse_headers_cases [of fr] show ?thesis
  proof
    assume "parse_headers fr = Some None"
    then show ?thesis by (simp add: header_view_def)
  next
    let ?t = "sizeof_ethhdr + ihl fr * 4"
    assume h: "parse_headers fr = Some (Some ?t) \<and>
      sizeof_ethhdr + sizeof_iphdr \<le> length fr \<and> ?t + sizeof_tcphdr \<le> length fr"
    then obtain a where a: "ip_saddr fr = Some a"
      using load_u32_Some [of "sizeof_ethhdr + 12" fr]
      by (auto simp: ip_saddr_def sizeof_ethhdr_def sizeof_iphdr_def)
    from h obtain w where "load_u16 fr (?t + 12) = Some w"
      using load_u16_Some [of "?t + 12" fr] by (auto simp: sizeof_tcphdr_def)
    then have b: "pure_syn fr ?t = Some (bit w 9 \<and> \<not> bit w 12)"
      by (simp add: pure_syn_def)
    from h a b show ?thesis by (simp add: header_view_def)
  qed
qed

lemma xdp_simple_firewall_view:
  "xdp_simple_firewall now fr s =
     Some (case header_view fr of
             None \<Rightarrow> (XDP_PASS, s)
           | Some (a, is_syn) \<Rightarrow>
               if is_syn then
                 (let (r, m) = check_rate_limit now a (rate_limit_map s);
                      s1 = s\<lparr>rate_limit_map := m, stats_map := stats_incr (stats_map s) 0\<rparr>
                  in if r \<noteq> 0 then (XDP_DROP, s1\<lparr>stats_map := stats_incr (stats_map s1) 1\<rparr>)
                     else (XDP_PASS, s1))
               else (XDP_PASS, s))"
  using header_view_cases [of fr]
  by (auto simp: xdp_simple_firewall_def Let_def split: prod.splits)

lemma xdp_firewall_view:
  "xdp_firewall now fr s =
     Some (case header_view fr of
             None \<Rightarrow> (XDP_PASS, s)
           | Some (a, is_syn) \<Rightarrow>
               (let s1 = s\<lparr>stats_map := stats_incr (stats_map s) 0\<rparr>
                in if is_syn then
                     (if a |\<in>| fmdom (ip_blocked_map s) then (XDP_DROP, s1)
                      else
                        (let (r, m) = check_rate_limit now a (rate_limit_map s);
                             s2 = s1\<lparr>rate_limit_map := m\<rparr>
                         in if r \<noteq> 0
                            then (XDP_DROP,
                                  s2\<lparr>ip_blocked_map := bpf_map_update (ip_blocked_map s) a 1\<rparr>)
                            else (XDP_PASS, s2)))
                   else (XDP_PASS, s1)))"
  using header_view_cases [of fr]
  by (auto simp: xdp_firewall_def Let_def fmlookup_dom_iff split: prod.splits option.splits)

subsection \<open>The sample frames\<close>

lemma header_view_syn_frame: "header_view syn_frame = Some (sample_src, True)"
  by (simp add: header_view_def parse_headers_def pure_syn_def ip_saddr_def load_u32_def
      load_u16_def load_u8_def syn_frame_def tcp_frame_def sample_src_def bpf_ntohs_def
      ETH_P_IP_def NEXTHDR_TCP_def sizeof_ethhdr_def sizeof_iphdr_def sizeof_tcphdr_def)

lemma header_view_ack_frame: "header_view ack_frame = Some (sample_src, False)"
  by (simp add: header_view_def parse_headers_def pure_syn_def ip_saddr_def load_u32_def
      load_u16_def load_u8_def ack_frame_def tcp_frame_def sample_src_def bpf_ntohs_def
      ETH_P_IP_def NEXTHDR_TCP_def sizeof_ethhdr_def sizeof_iphdr_def sizeof_tcphdr_def)

lemma header_view_ihl0_frame: "header_view ihl0_frame = Some (ihl0_src, True)"
  by (simp add: header_view_def parse_headers_def pure_syn_def ip_saddr_def load_u32_def
      load_u16_def load_u8_def ihl0_frame_def ihl0_src_def bpf_ntohs_def
      ETH_P_IP_def NEXTHDR_TCP_def sizeof_ethhdr_def sizeof_iphdr_def sizeof_tcphdr_def)

subsection \<open>One pure SYN, and a run of them inside a window\<close>

lemma map_upt_shift:
  "f 0 # map (\<lambda>k. f (Suc k)) [0..<n] = map f [0..<Suc n]"
  by (simp add: map_upt_Suc del: upt_Suc)

lemma xdp_simple_firewall_syn:
  assumes "header_view fr = Some (a, True)"
    and "check_rate_limit now a (rate_limit_map s) = (r, m)"
  shows "xdp_simple_firewall now fr s =
           Some (if r \<noteq> 0 then XDP_DROP else XDP_PASS,
                 s\<lparr>rate_limit_map := m,
                   stats_map := (if r \<noteq> 0 then stats_incr (stats_incr (stats_map s) 0) 1
                                 else stats_incr (stats_map s) 0)\<rparr>)"
  using assms by (simp add: xdp_simple_firewall_view)

lemma xdp_firewall_syn:
  assumes "header_view fr = Some (a, True)"
    and "a |\<notin>| fmdom (ip_blocked_map s)"
    and "check_rate_limit now a (rate_limit_map s) = (r, m)"
  shows "xdp_firewall now fr s =
           Some (if r \<noteq> 0 then XDP_DROP else XDP_PASS,
                 s\<lparr>rate_limit_map := m, stats_map := stats_incr (stats_map s) 0,
                   ip_blocked_map := (if r \<noteq> 0 then bpf_map_update (ip_blocked_map s) a 1
                                      else ip_blocked_map s)\<rparr>)"
  using assms by (simp add: xdp_firewall_view)

lemma xdp_firewall_blocked:
  assumes "header_view fr = Some (a, True)"
    and "a |\<in>| fmdom (ip_blocked_map s)"
  shows "xdp_firewall now fr s =
           Some (XDP_DROP, s\<lparr>stats_map := stats_incr (stats_map s) 0\<rparr>)"
  using assms by (simp add: xdp_firewall_view)

lemma run_simple_window:
  assumes "length ts = length frs"
    and "\<forall>fr \<in> set frs. header_view fr = Some (src, True)"
    and "\<forall>t \<in> set ts. t - t0 \<le> TIME_WINDOW_NS"
    and "fmlookup (rate_limit_map s) src = Some rv"
    and "last_ts rv = t0"
    and "unat (count rv) + length ts < 2 ^ 64"
  shows "\<exists>s'. run_simple s (zip ts frs) =
           Some (map (\<lambda>k. if unat (count rv) + k < 10 then XDP_PASS else XDP_DROP)
                   [0..<length ts], s')"
  using assms
proof (induction ts frs arbitrary: s rv rule: list_induct2)
  case Nil
  then show ?case by simp
next
  case (Cons t ts fr frs)
  let ?rv = "rv\<lparr>count := count rv + 1\<rparr>"
  let ?m = "fmupd src ?rv (rate_limit_map s)"
  let ?v = "if unat (count rv) < 10 then XDP_PASS else XDP_DROP"
  from Cons.prems have small: "unat (count rv) + 1 < 2 ^ 64" by simp
  have cnt: "unat (count rv + 1) = Suc (unat (count rv))"
    by (rule unat_u64_succ [OF small])
  have crl: "check_rate_limit t src (rate_limit_map s) =
               (if 10 \<le> unat (count rv) then 1 else 0, ?m)"
    using Cons.prems check_rate_limit_open [of "rate_limit_map s" src rv t]
      over_threshold_iff [OF small]
    by (simp add: not_less)
  obtain s1 where step: "xdp_simple_firewall t fr s = Some (?v, s1)"
    and m1: "rate_limit_map s1 = ?m"
    using Cons.prems xdp_simple_firewall_syn [OF _ crl, of fr]
    by (cases "unat (count rv) < 10") simp_all
  have "\<exists>s'. run_simple s1 (zip ts frs) =
           Some (map (\<lambda>k. if unat (count ?rv) + k < 10 then XDP_PASS else XDP_DROP)
                   [0..<length ts], s')"
  proof (rule Cons.IH)
    show "\<forall>fr \<in> set frs. header_view fr = Some (src, True)" using Cons.prems by simp
    show "\<forall>t \<in> set ts. t - t0 \<le> TIME_WINDOW_NS" using Cons.prems by simp
    show "fmlookup (rate_limit_map s1) src = Some ?rv" by (simp add: m1)
    show "last_ts ?rv = t0" using Cons.prems by simp
    show "unat (count ?rv) + length ts < 2 ^ 64" using Cons.prems cnt by simp
  qed
  then obtain s' where rest: "run_simple s1 (zip ts frs) =
      Some (map (\<lambda>k. if Suc (unat (count rv) + k) < 10 then XDP_PASS else XDP_DROP)
              [0..<length ts], s')"
    by (auto simp: cnt)
  show ?case
    using map_upt_shift [of "\<lambda>k. if unat (count rv) + k < 10 then XDP_PASS else XDP_DROP" "length ts"]
    by (simp add: step rest del: upt_Suc)
qed

lemma run_v2_window:
  assumes "length ts = length frs"
    and "\<forall>fr \<in> set frs. header_view fr = Some (src, True)"
    and "\<forall>t \<in> set ts. t - t0 \<le> TIME_WINDOW_NS"
    and "src |\<in>| fmdom (ip_blocked_map s) \<and> 10 \<le> c \<or>
         src |\<notin>| fmdom (ip_blocked_map s) \<and>
         (\<exists>rv. fmlookup (rate_limit_map s) src = Some rv \<and> last_ts rv = t0 \<and>
               unat (count rv) = c)"
    and "c + length ts < 2 ^ 64"
  shows "\<exists>s'. run_v2 s (zip ts frs) =
           Some (map (\<lambda>k. if c + k < 10 then XDP_PASS else XDP_DROP) [0..<length ts], s')"
  using assms
proof (induction ts frs arbitrary: s c rule: list_induct2)
  case Nil
  then show ?case by simp
next
  case (Cons t ts fr frs)
  let ?v = "if c < 10 then XDP_PASS else XDP_DROP"
  from Cons.prems have fr: "header_view fr = Some (src, True)" by simp
  have "\<exists>s1. xdp_firewall t fr s = Some (?v, s1) \<and>
          (src |\<in>| fmdom (ip_blocked_map s1) \<and> 10 \<le> Suc c \<or>
           src |\<notin>| fmdom (ip_blocked_map s1) \<and>
           (\<exists>rv. fmlookup (rate_limit_map s1) src = Some rv \<and> last_ts rv = t0 \<and>
                 unat (count rv) = Suc c))"
  proof (cases "src |\<in>| fmdom (ip_blocked_map s)")
    case True
    with Cons.prems have "10 \<le> c" by auto
    with True show ?thesis by (simp add: xdp_firewall_blocked [OF fr True])
  next
    case False
    with Cons.prems obtain rv where rv: "fmlookup (rate_limit_map s) src = Some rv"
      "last_ts rv = t0" "unat (count rv) = c"
      by auto
    let ?rv = "rv\<lparr>count := count rv + 1\<rparr>"
    let ?m = "fmupd src ?rv (rate_limit_map s)"
    from Cons.prems rv have small: "unat (count rv) + 1 < 2 ^ 64" by simp
    have cnt: "unat (count rv + 1) = Suc c"
      using unat_u64_succ [OF small] rv by simp
    have crl: "check_rate_limit t src (rate_limit_map s) = (if 10 \<le> c then 1 else 0, ?m)"
      using Cons.prems rv check_rate_limit_open [of "rate_limit_map s" src rv t]
        over_threshold_iff [OF small]
      by (simp add: not_less)
    show ?thesis
    proof (cases "c < 10")
      case True
      then show ?thesis
        using xdp_firewall_syn [OF fr False crl] False rv cnt by simp
    next
      case over: False
      show ?thesis
      proof (cases "src |\<in>| fmdom (bpf_map_update (ip_blocked_map s) src 1)")
        case True
        then show ?thesis
          using xdp_firewall_syn [OF fr False crl] over by simp
      next
        case False
        then show ?thesis
          using xdp_firewall_syn [OF fr \<open>src |\<notin>| fmdom (ip_blocked_map s)\<close> crl] over rv cnt
          by simp
      qed
    qed
  qed
  then obtain s1 where step: "xdp_firewall t fr s = Some (?v, s1)"
    and inv1: "src |\<in>| fmdom (ip_blocked_map s1) \<and> 10 \<le> Suc c \<or>
           src |\<notin>| fmdom (ip_blocked_map s1) \<and>
           (\<exists>rv. fmlookup (rate_limit_map s1) src = Some rv \<and> last_ts rv = t0 \<and>
                 unat (count rv) = Suc c)"
    by blast
  have "\<exists>s'. run_v2 s1 (zip ts frs) =
           Some (map (\<lambda>k. if Suc c + k < 10 then XDP_PASS else XDP_DROP) [0..<length ts], s')"
  proof (rule Cons.IH)
    show "\<forall>fr \<in> set frs. header_view fr = Some (src, True)" using Cons.prems by simp
    show "\<forall>t \<in> set ts. t - t0 \<le> TIME_WINDOW_NS" using Cons.prems by simp
    show "src |\<in>| fmdom (ip_blocked_map s1) \<and> 10 \<le> Suc c \<or>
           src |\<notin>| fmdom (ip_blocked_map s1) \<and>
           (\<exists>rv. fmlookup (rate_limit_map s1) src = Some rv \<and> last_ts rv = t0 \<and>
                 unat (count rv) = Suc c)" by (rule inv1)
    show "Suc c + length ts < 2 ^ 64" using Cons.prems by simp
  qed
  then obtain s' where rest: "run_v2 s1 (zip ts frs) =
      Some (map (\<lambda>k. if Suc (c + k) < 10 then XDP_PASS else XDP_DROP) [0..<length ts], s')"
    by auto
  show ?case
    using map_upt_shift [of "\<lambda>k. if c + k < 10 then XDP_PASS else XDP_DROP" "length ts"]
    by (simp add: step rest del: upt_Suc)
qed

lemma check_rate_limit_opens:
  "opens_window m src t0 \<Longrightarrow>
   check_rate_limit t0 src m = (0, fmupd src \<lparr>last_ts = t0, count = 1\<rparr> m)"
  by (auto simp: opens_window_def check_rate_limit_absent check_rate_limit_expired
        bpf_map_update_def split: option.splits)

subsection \<open>A burst from one source inside one window\<close>

lemma run_simple_burst:
  assumes frames: "\<forall>fr \<in> set (f0 # frs). header_view fr = Some (src, True)"
    and len: "length ts = length frs"
    and same_window: "\<forall>t \<in> set ts. t - t0 \<le> TIME_WINDOW_NS"
    and no_wrap: "length ts < 2 ^ 64 - 1"
    and opens: "opens_window (rate_limit_map s) src t0"
  shows "\<exists>s'. run_simple s ((t0, f0) # zip ts frs) =
            Some (map (\<lambda>k. if k < 10 then XDP_PASS else XDP_DROP) [0..<Suc (length ts)], s')"
proof -
  let ?rv = "\<lparr>last_ts = t0, count = 1\<rparr>"
  let ?f = "\<lambda>k::nat. if k < 10 then XDP_PASS else XDP_DROP"
  from frames have f0: "header_view f0 = Some (src, True)"
    and frs: "\<forall>fr \<in> set frs. header_view fr = Some (src, True)" by simp_all
  have shift: "?f 0 # map (\<lambda>k. ?f (Suc k)) [0..<length ts] = map ?f [0..<Suc (length ts)]"
    by (rule map_upt_shift)
  obtain s1 where first: "xdp_simple_firewall t0 f0 s = Some (XDP_PASS, s1)"
    and m1: "fmlookup (rate_limit_map s1) src = Some ?rv"
    using xdp_simple_firewall_syn [OF f0 check_rate_limit_opens [OF opens]] by simp
  have "\<exists>s'. run_simple s1 (zip ts frs) =
          Some (map (\<lambda>k. if unat (count ?rv) + k < 10 then XDP_PASS else XDP_DROP)
                  [0..<length ts], s')"
    using len frs same_window m1 no_wrap by (intro run_simple_window) simp_all
  then obtain s' where
    "run_simple s1 (zip ts frs) = Some (map (\<lambda>k. ?f (Suc k)) [0..<length ts], s')"
    by auto
  then show ?thesis
    using shift by (simp add: first del: upt_Suc)
qed

lemma run_v2_burst:
  assumes frames: "\<forall>fr \<in> set (f0 # frs). header_view fr = Some (src, True)"
    and len: "length ts = length frs"
    and same_window: "\<forall>t \<in> set ts. t - t0 \<le> TIME_WINDOW_NS"
    and no_wrap: "length ts < 2 ^ 64 - 1"
    and opens: "opens_window (rate_limit_map v) src t0"
    and not_blocked: "src |\<notin>| fmdom (ip_blocked_map v)"
  shows "\<exists>v'. run_v2 v ((t0, f0) # zip ts frs) =
            Some (map (\<lambda>k. if k < 10 then XDP_PASS else XDP_DROP) [0..<Suc (length ts)], v')"
proof -
  let ?rv = "\<lparr>last_ts = t0, count = 1\<rparr>"
  let ?f = "\<lambda>k::nat. if k < 10 then XDP_PASS else XDP_DROP"
  from frames have f0: "header_view f0 = Some (src, True)"
    and frs: "\<forall>fr \<in> set frs. header_view fr = Some (src, True)" by simp_all
  have shift: "?f 0 # map (\<lambda>k. ?f (Suc k)) [0..<length ts] = map ?f [0..<Suc (length ts)]"
    by (rule map_upt_shift)
  obtain v1 where first: "xdp_firewall t0 f0 v = Some (XDP_PASS, v1)"
    and m1: "fmlookup (rate_limit_map v1) src = Some ?rv"
    and b1: "src |\<notin>| fmdom (ip_blocked_map v1)"
    using xdp_firewall_syn [OF f0 not_blocked check_rate_limit_opens [OF opens]] not_blocked
    by simp
  have "\<exists>v'. run_v2 v1 (zip ts frs) =
          Some (map (\<lambda>k. if 1 + k < 10 then XDP_PASS else XDP_DROP) [0..<length ts], v')"
    using len frs same_window
  proof (rule run_v2_window)
    show "src |\<in>| fmdom (ip_blocked_map v1) \<and> 10 \<le> (1::nat) \<or>
         src |\<notin>| fmdom (ip_blocked_map v1) \<and>
         (\<exists>rv. fmlookup (rate_limit_map v1) src = Some rv \<and> last_ts rv = t0 \<and>
               unat (count rv) = 1)"
      using m1 b1 by simp
    show "1 + length ts < 2 ^ 64" using no_wrap by simp
  qed
  then obtain v' where
    "run_v2 v1 (zip ts frs) = Some (map (\<lambda>k. ?f (Suc k)) [0..<length ts], v')"
    by auto
  then show ?thesis
    using shift by (simp add: first del: upt_Suc)
qed

text \<open>
  C1. A source sends pure SYNs: the frame \<open>f0\<close> at \<open>t0\<close> opens a window of the rate
  limiter for it, and the frames \<open>frs\<close> follow at the clock values \<open>ts\<close>, none of them
  more than \<open>TIME_WINDOW_NS\<close> after \<open>t0\<close>. Then both programs return \<open>XDP_PASS\<close> for the
  first 10 of these frames and \<open>XDP_DROP\<close> for the 11th and every later one. For
  \<open>xdp_firewall\<close> the source is not in \<open>ip_blocked_map\<close> at the start.
\<close>

theorem first_ten_pass_eleventh_drop:
  assumes frames: "\<forall>fr \<in> set (f0 # frs). header_view fr = Some (src, True)"
    and len: "length ts = length frs"
    and same_window: "\<forall>t \<in> set ts. t - t0 \<le> TIME_WINDOW_NS"
    and no_wrap: "length ts < 2 ^ 64 - 1"
    and opens: "opens_window (rate_limit_map s) src t0"
    and opens_v2: "opens_window (rate_limit_map v) src t0"
    and not_blocked: "src |\<notin>| fmdom (ip_blocked_map v)"
  shows "(\<exists>s'. run_simple s ((t0, f0) # zip ts frs) =
            Some (map (\<lambda>k. if k < 10 then XDP_PASS else XDP_DROP) [0..<Suc (length ts)], s'))
       \<and> (\<exists>v'. run_v2 v ((t0, f0) # zip ts frs) =
            Some (map (\<lambda>k. if k < 10 then XDP_PASS else XDP_DROP) [0..<Suc (length ts)], v'))"
  using run_simple_burst [OF frames len same_window no_wrap opens]
    run_v2_burst [OF frames len same_window no_wrap opens_v2 not_blocked]
  by (rule conjI)

theorem first_ten_pass_eleventh_drop_witness:
  "list_all (\<lambda>fr. header_view fr = Some (sample_src, True))
     (syn_frame # replicate 10 syn_frame)
   \<and> length [100, 200, 300, 400, 500, 600, 700, 800, 900, 1000 :: u64]
       = length (replicate 10 syn_frame)
   \<and> list_all (\<lambda>t. t - 0 \<le> TIME_WINDOW_NS)
       [100, 200, 300, 400, 500, 600, 700, 800, 900, 1000 :: u64]
   \<and> opens_window (rate_limit_map init_maps) sample_src 0
   \<and> opens_window (rate_limit_map init_maps_v2) sample_src 0
   \<and> sample_src |\<notin>| fmdom (ip_blocked_map init_maps_v2)
   \<and> (\<exists>s'. run_simple init_maps
              ((0, syn_frame) # zip [100, 200, 300, 400, 500, 600, 700, 800, 900, 1000]
                                     (replicate 10 syn_frame)) =
            Some ([XDP_PASS, XDP_PASS, XDP_PASS, XDP_PASS, XDP_PASS, XDP_PASS, XDP_PASS,
                   XDP_PASS, XDP_PASS, XDP_PASS, XDP_DROP], s'))
   \<and> (\<exists>v'. run_v2 init_maps_v2
              ((0, syn_frame) # zip [100, 200, 300, 400, 500, 600, 700, 800, 900, 1000]
                                     (replicate 10 syn_frame)) =
            Some ([XDP_PASS, XDP_PASS, XDP_PASS, XDP_PASS, XDP_PASS, XDP_PASS, XDP_PASS,
                   XDP_PASS, XDP_PASS, XDP_PASS, XDP_DROP], v'))"
proof -
  let ?ts = "[100, 200, 300, 400, 500, 600, 700, 800, 900, 1000 :: u64]"
  let ?frs = "replicate 10 syn_frame"
  have h1: "\<forall>fr \<in> set (syn_frame # ?frs). header_view fr = Some (sample_src, True)"
    by (simp add: header_view_syn_frame)
  have h2: "length ?ts = length ?frs" by simp
  have h3: "\<forall>t \<in> set ?ts. t - 0 \<le> TIME_WINDOW_NS" by (simp add: TIME_WINDOW_NS_def)
  have h4: "length ?ts < 2 ^ 64 - 1" by simp
  have h5: "opens_window (rate_limit_map init_maps) sample_src 0"
    by (simp add: opens_window_def init_maps_def MAX_ENTRIES_def fcard_fempty)
  have h6: "opens_window (rate_limit_map init_maps_v2) sample_src 0"
    by (simp add: opens_window_def init_maps_v2_def MAX_ENTRIES_def fcard_fempty)
  have h7: "sample_src |\<notin>| fmdom (ip_blocked_map init_maps_v2)"
    by (simp add: init_maps_v2_def)
  have upt: "map (\<lambda>k. if k < 10 then XDP_PASS else XDP_DROP) [0..<Suc (length ?ts)] =
     [XDP_PASS, XDP_PASS, XDP_PASS, XDP_PASS, XDP_PASS, XDP_PASS, XDP_PASS,
                   XDP_PASS, XDP_PASS, XDP_PASS, XDP_DROP]"
    by (simp add: upt_rec)
  show ?thesis
    using first_ten_pass_eleventh_drop [OF h1 h2 h3 h4 h5 h6 h7] h1 h2 h3 h5 h6 h7
    unfolding upt list_all_iff by blast
qed

subsection \<open>A source without a record\<close>

lemma fmdom_full_table: "fmdom full_table = fset_of_list (map of_nat [0..<MAX_ENTRIES])"
  by (simp add: full_table_def comp_def)

lemma fcard_full_table: "fcard (fmdom full_table) = MAX_ENTRIES"
proof -
  have inj: "inj_on (of_nat :: nat \<Rightarrow> u32) {0..<MAX_ENTRIES}"
  proof (rule inj_onI)
    fix x y assume x: "x \<in> {0..<MAX_ENTRIES}" and y: "y \<in> {0..<MAX_ENTRIES}"
      and eq: "(of_nat x :: u32) = of_nat y"
    from x y have "x < 2 ^ 32" "y < 2 ^ 32" by (simp_all add: MAX_ENTRIES_def)
    then have "unat (of_nat x :: u32) = x" "unat (of_nat y :: u32) = y"
      by (simp_all add: unat_of_nat)
    with eq show "x = y" by metis
  qed
  have "fcard (fmdom full_table) = card (set (map (of_nat :: nat \<Rightarrow> u32) [0..<MAX_ENTRIES]))"
    by (simp add: fmdom_full_table fcard.rep_eq fset_of_list.rep_eq)
  also have "\<dots> = card {0..<MAX_ENTRIES}"
    using card_image [OF inj] by simp
  finally show ?thesis by simp
qed

lemma sample_src_not_in_full_table: "sample_src |\<notin>| fmdom full_table"
proof
  assume "sample_src |\<in>| fmdom full_table"
  then obtain i where i: "i < MAX_ENTRIES" and eq: "sample_src = (of_nat i :: u32)"
    by (auto simp: fmdom_full_table fset_of_list.rep_eq)
  from i have "unat (of_nat i :: u32) = i" by (simp add: unat_of_nat MAX_ENTRIES_def)
  with eq have "unat sample_src = i" by simp
  with i show False by (simp add: sample_src_def MAX_ENTRIES_def)
qed

lemma syn_of_new_sourceD:
  "syn_of_new_source m fr \<Longrightarrow> \<exists>a. header_view fr = Some (a, True) \<and> fmlookup m a = None"
  by (auto simp: syn_of_new_source_def split: option.splits)

lemma bpf_map_update_full:
  "MAX_ENTRIES \<le> fcard (fmdom m) \<Longrightarrow> fmlookup m k = None \<Longrightarrow> bpf_map_update m k v = m"
  by (simp add: bpf_map_update_def fmdom_notI)

lemma run_simple_full_table:
  assumes "MAX_ENTRIES \<le> fcard (fmdom (rate_limit_map s))"
    and "list_all (syn_of_new_source (rate_limit_map s)) (map snd es)"
  shows "\<exists>s'. run_simple s es = Some (replicate (length es) XDP_PASS, s') \<and>
              rate_limit_map s' = rate_limit_map s"
  using assms
proof (induction es arbitrary: s)
  case Nil
  then show ?case by simp
next
  case (Cons e es)
  obtain t fr where e: "e = (t, fr)" by (cases e)
  from Cons.prems e obtain a where a: "header_view fr = Some (a, True)"
    and new: "fmlookup (rate_limit_map s) a = None"
    using syn_of_new_sourceD [of "rate_limit_map s" fr] by auto
  have crl: "check_rate_limit t a (rate_limit_map s) = (0, rate_limit_map s)"
    using Cons.prems new by (simp add: check_rate_limit_absent bpf_map_update_full)
  let ?s1 = "s\<lparr>rate_limit_map := rate_limit_map s, stats_map := stats_incr (stats_map s) 0\<rparr>"
  have step: "xdp_simple_firewall t fr s = Some (XDP_PASS, ?s1)"
    using xdp_simple_firewall_syn [OF a crl] by simp
  have "\<exists>s'. run_simple ?s1 es = Some (replicate (length es) XDP_PASS, s') \<and>
              rate_limit_map s' = rate_limit_map ?s1"
    using Cons.prems by (intro Cons.IH) simp_all
  then show ?case by (auto simp: e step)
qed

lemma run_v2_full_table:
  assumes "MAX_ENTRIES \<le> fcard (fmdom (rate_limit_map v))"
    and "list_all (syn_of_new_source (rate_limit_map v)) (map snd es)"
    and "list_all (not_blocked (ip_blocked_map v)) (map snd es)"
  shows "\<exists>v'. run_v2 v es = Some (replicate (length es) XDP_PASS, v') \<and>
              rate_limit_map v' = rate_limit_map v \<and> ip_blocked_map v' = ip_blocked_map v"
  using assms
proof (induction es arbitrary: v)
  case Nil
  then show ?case by simp
next
  case (Cons e es)
  obtain t fr where e: "e = (t, fr)" by (cases e)
  from Cons.prems e obtain a where a: "header_view fr = Some (a, True)"
    and new: "fmlookup (rate_limit_map v) a = None"
    using syn_of_new_sourceD [of "rate_limit_map v" fr] by auto
  from Cons.prems e a have nb: "a |\<notin>| fmdom (ip_blocked_map v)"
    by (simp add: not_blocked_def)
  have crl: "check_rate_limit t a (rate_limit_map v) = (0, rate_limit_map v)"
    using Cons.prems new by (simp add: check_rate_limit_absent bpf_map_update_full)
  let ?v1 = "v\<lparr>rate_limit_map := rate_limit_map v, stats_map := stats_incr (stats_map v) 0,
               ip_blocked_map := ip_blocked_map v\<rparr>"
  have step: "xdp_firewall t fr v = Some (XDP_PASS, ?v1)"
    using xdp_firewall_syn [OF a nb crl] by simp
  have "\<exists>v'. run_v2 ?v1 es = Some (replicate (length es) XDP_PASS, v') \<and>
              rate_limit_map v' = rate_limit_map ?v1 \<and> ip_blocked_map v' = ip_blocked_map ?v1"
    using Cons.prems by (intro Cons.IH) simp_all
  then show ?case by (auto simp: e step)
qed

text \<open>
  C10. A pure SYN of a source that has no record in \<open>rate_limit_map\<close> gets \<open>XDP_PASS\<close>,
  whether or not the new record can be stored (for \<open>xdp_firewall\<close>: of a source that is not
  in \<open>ip_blocked_map\<close>). When the table is at its capacity the record is not stored: in any
  run of such frames every frame gets \<open>XDP_PASS\<close> and the table is left as it was, so none
  of these sources is ever counted.
\<close>

theorem new_source_fail_open:
  "(syn_of_new_source (rate_limit_map s) fr \<longrightarrow>
      (\<exists>s'. xdp_simple_firewall now fr s = Some (XDP_PASS, s')))
   \<and> (syn_of_new_source (rate_limit_map v) fr \<and> not_blocked (ip_blocked_map v) fr \<longrightarrow>
      (\<exists>v'. xdp_firewall now fr v = Some (XDP_PASS, v')))
   \<and> (MAX_ENTRIES \<le> fcard (fmdom (rate_limit_map s)) \<and>
      list_all (syn_of_new_source (rate_limit_map s)) (map snd es) \<longrightarrow>
      (\<exists>s'. run_simple s es = Some (replicate (length es) XDP_PASS, s') \<and>
            rate_limit_map s' = rate_limit_map s))
   \<and> (MAX_ENTRIES \<le> fcard (fmdom (rate_limit_map v)) \<and>
      list_all (syn_of_new_source (rate_limit_map v)) (map snd es) \<and>
      list_all (not_blocked (ip_blocked_map v)) (map snd es) \<longrightarrow>
      (\<exists>v'. run_v2 v es = Some (replicate (length es) XDP_PASS, v') \<and>
            rate_limit_map v' = rate_limit_map v \<and> ip_blocked_map v' = ip_blocked_map v))"
proof (intro conjI impI)
  assume "syn_of_new_source (rate_limit_map s) fr"
  then obtain a where a: "header_view fr = Some (a, True)"
    and new: "fmlookup (rate_limit_map s) a = None"
    using syn_of_new_sourceD by blast
  show "\<exists>s'. xdp_simple_firewall now fr s = Some (XDP_PASS, s')"
    using xdp_simple_firewall_syn [OF a check_rate_limit_absent [OF new]] by simp
next
  assume h: "syn_of_new_source (rate_limit_map v) fr \<and> not_blocked (ip_blocked_map v) fr"
  then obtain a where a: "header_view fr = Some (a, True)"
    and new: "fmlookup (rate_limit_map v) a = None"
    using syn_of_new_sourceD by blast
  from h a have nb: "a |\<notin>| fmdom (ip_blocked_map v)" by (simp add: not_blocked_def)
  show "\<exists>v'. xdp_firewall now fr v = Some (XDP_PASS, v')"
    using xdp_firewall_syn [OF a nb check_rate_limit_absent [OF new]] by simp
next
  assume "MAX_ENTRIES \<le> fcard (fmdom (rate_limit_map s)) \<and>
      list_all (syn_of_new_source (rate_limit_map s)) (map snd es)"
  then show "\<exists>s'. run_simple s es = Some (replicate (length es) XDP_PASS, s') \<and>
            rate_limit_map s' = rate_limit_map s"
    using run_simple_full_table by blast
next
  assume "MAX_ENTRIES \<le> fcard (fmdom (rate_limit_map v)) \<and>
      list_all (syn_of_new_source (rate_limit_map v)) (map snd es) \<and>
      list_all (not_blocked (ip_blocked_map v)) (map snd es)"
  then show "\<exists>v'. run_v2 v es = Some (replicate (length es) XDP_PASS, v') \<and>
            rate_limit_map v' = rate_limit_map v \<and> ip_blocked_map v' = ip_blocked_map v"
    using run_v2_full_table by blast
qed

lemma syn_frame_new_in_full_table: "syn_of_new_source full_table syn_frame"
  using sample_src_not_in_full_table
  by (simp add: syn_of_new_source_def header_view_syn_frame fmdom_notD)

theorem new_source_fail_open_witness:
  "syn_of_new_source (rate_limit_map full_maps) syn_frame
   \<and> not_blocked (ip_blocked_map full_maps_v2) syn_frame
   \<and> MAX_ENTRIES \<le> fcard (fmdom (rate_limit_map full_maps))
   \<and> list_all (syn_of_new_source (rate_limit_map full_maps))
       (map snd (replicate 12 (0 :: u64, syn_frame)))
   \<and> (\<exists>s'. xdp_simple_firewall 0 syn_frame full_maps = Some (XDP_PASS, s'))
   \<and> (\<exists>v'. xdp_firewall 0 syn_frame full_maps_v2 = Some (XDP_PASS, v'))
   \<and> (\<exists>s'. run_simple full_maps (replicate 12 (0, syn_frame)) =
              Some (replicate 12 XDP_PASS, s') \<and> rate_limit_map s' = full_table)
   \<and> (\<exists>v'. run_v2 full_maps_v2 (replicate 12 (0, syn_frame)) =
              Some (replicate 12 XDP_PASS, v') \<and> rate_limit_map v' = full_table \<and>
              ip_blocked_map v' = fmempty)"
proof -
  have h1: "syn_of_new_source (rate_limit_map full_maps) syn_frame"
    and h1': "syn_of_new_source (rate_limit_map full_maps_v2) syn_frame"
    by (simp_all add: full_maps_def full_maps_v2_def syn_frame_new_in_full_table)
  have h2: "not_blocked (ip_blocked_map full_maps_v2) syn_frame"
    by (simp add: not_blocked_def full_maps_v2_def header_view_syn_frame)
  have h3: "MAX_ENTRIES \<le> fcard (fmdom (rate_limit_map full_maps))"
    and h3': "MAX_ENTRIES \<le> fcard (fmdom (rate_limit_map full_maps_v2))"
    by (simp_all add: full_maps_def full_maps_v2_def fcard_full_table)
  have h4: "list_all (syn_of_new_source (rate_limit_map full_maps))
              (map snd (replicate 12 (0 :: u64, syn_frame)))"
    and h4': "list_all (syn_of_new_source (rate_limit_map full_maps_v2))
              (map snd (replicate 12 (0 :: u64, syn_frame)))"
    using h1 h1' by (simp_all add: list_all_iff)
  have h5: "list_all (not_blocked (ip_blocked_map full_maps_v2))
              (map snd (replicate 12 (0 :: u64, syn_frame)))"
    using h2 by (simp add: list_all_iff)
  have m: "rate_limit_map full_maps = full_table" "rate_limit_map full_maps_v2 = full_table"
    "ip_blocked_map full_maps_v2 = fmempty"
    by (simp_all add: full_maps_def full_maps_v2_def)
  note inst = new_source_fail_open [of full_maps syn_frame 0 full_maps_v2
      "replicate 12 (0, syn_frame)"]
  from inst h1 have c1: "\<exists>s'. xdp_simple_firewall 0 syn_frame full_maps = Some (XDP_PASS, s')"
    by blast
  from inst h1' h2 have c2: "\<exists>v'. xdp_firewall 0 syn_frame full_maps_v2 = Some (XDP_PASS, v')"
    by blast
  from inst h3 h4 have c3: "\<exists>s'. run_simple full_maps (replicate 12 (0, syn_frame)) =
        Some (replicate 12 XDP_PASS, s') \<and> rate_limit_map s' = full_table"
    by (simp add: m)
  from inst h3' h4' h5 have c4: "\<exists>v'. run_v2 full_maps_v2 (replicate 12 (0, syn_frame)) =
        Some (replicate 12 XDP_PASS, v') \<and> rate_limit_map v' = full_table \<and>
        ip_blocked_map v' = fmempty"
    by (simp add: m)
  show ?thesis by (intro conjI h1 h2 h3 h4 c1 c2 c3 c4)
qed

subsection \<open>The first SYN after the window has run out\<close>

lemma expired_by_clock:
  "last_ts rv \<le> now \<Longrightarrow> 2000000000 < unat now - unat (last_ts rv) \<Longrightarrow>
   TIME_WINDOW_NS < now - last_ts rv"
  by (simp add: TIME_WINDOW_NS_def word_less_nat_alt unat_sub)

text \<open>
  C5. In \<open>xdp_simple_firewall\<close>, a pure SYN of a source whose record is older than the
  time window (\<open>now - last_ts > TIME_WINDOW_NS\<close>, in the 64-bit arithmetic of the program)
  gets \<open>XDP_PASS\<close>, and the record becomes \<open>last_ts = now\<close>, \<open>count = 1\<close>, whatever the
  count was before.
\<close>

theorem expired_window_resets:
  assumes "header_view fr = Some (src, True)"
    and "fmlookup (rate_limit_map s) src = Some rv"
    and "now - last_ts rv > TIME_WINDOW_NS"
  shows "xdp_simple_firewall now fr s =
           Some (XDP_PASS,
                 s\<lparr>rate_limit_map :=
                     fmupd src \<lparr>last_ts = now, count = 1\<rparr> (rate_limit_map s),
                   stats_map := stats_incr (stats_map s) 0\<rparr>)"
  using xdp_simple_firewall_syn [OF assms(1) check_rate_limit_expired [OF assms(2) assms(3)]]
  by simp

theorem expired_window_resets_witness:
  "header_view syn_frame = Some (sample_src, True)
   \<and> fmlookup (rate_limit_map over_limit_maps) sample_src = Some \<lparr>last_ts = 1000, count = 50\<rparr>
   \<and> 2000001001 - last_ts \<lparr>last_ts = 1000, count = 50\<rparr> > TIME_WINDOW_NS
   \<and> xdp_simple_firewall 2000001001 syn_frame over_limit_maps =
       Some (XDP_PASS,
             \<lparr>rate_limit_map = fmupd sample_src \<lparr>last_ts = 2000001001, count = 1\<rparr> fmempty,
              stats_map = [51, 40]\<rparr>)"
proof -
  have h1: "header_view syn_frame = Some (sample_src, True)" by (rule header_view_syn_frame)
  have h2: "fmlookup (rate_limit_map over_limit_maps) sample_src =
              Some \<lparr>last_ts = 1000, count = 50\<rparr>"
    by (simp add: over_limit_maps_def)
  have h3: "2000001001 - last_ts \<lparr>last_ts = 1000, count = 50\<rparr> > TIME_WINDOW_NS"
    by (simp add: TIME_WINDOW_NS_def)
  have "xdp_simple_firewall 2000001001 syn_frame over_limit_maps =
       Some (XDP_PASS,
             \<lparr>rate_limit_map = fmupd sample_src \<lparr>last_ts = 2000001001, count = 1\<rparr> fmempty,
              stats_map = [51, 40]\<rparr>)"
    using expired_window_resets [OF h1 h2 h3]
    by (simp add: over_limit_maps_def stats_incr_def)
  with h1 h2 h3 show ?thesis by (intro conjI)
qed

subsection \<open>TCP frames that are not a pure SYN\<close>

text \<open>
  C8. A frame that passes the header checks and is not a pure SYN gets \<open>XDP_PASS\<close> from
  both programs, for every state of the maps and every clock value; \<open>rate_limit_map\<close> and
  \<open>ip_blocked_map\<close> are left as they were (\<open>xdp_firewall\<close> adds 1 to its counter).
\<close>

theorem other_tcp_passes_untouched:
  assumes "header_view fr = Some (a, False)"
  shows "xdp_simple_firewall now fr s = Some (XDP_PASS, s)
       \<and> xdp_firewall now fr v = Some (XDP_PASS, v\<lparr>stats_map := stats_incr (stats_map v) 0\<rparr>)"
  using assms by (simp add: xdp_simple_firewall_view xdp_firewall_view)

theorem other_tcp_passes_untouched_witness:
  "header_view ack_frame = Some (sample_src, False)
   \<and> xdp_simple_firewall 7 ack_frame over_limit_maps = Some (XDP_PASS, over_limit_maps)
   \<and> xdp_firewall 7 ack_frame init_maps_v2 =
       Some (XDP_PASS, init_maps_v2\<lparr>stats_map := stats_incr (stats_map init_maps_v2) 0\<rparr>)"
  using other_tcp_passes_untouched [OF header_view_ack_frame, of 7 over_limit_maps init_maps_v2]
    header_view_ack_frame
  by simp

subsection \<open>Frames too short for the headers\<close>

lemma too_short_parse: "too_short fr \<Longrightarrow> parse_headers fr = Some None"
  using parse_headers_cases [of fr] by (auto simp: too_short_def)

lemma too_short_view: "too_short fr \<Longrightarrow> header_view fr = None"
  by (simp add: header_view_def too_short_parse)

text \<open>
  C4 (as amended). For every frame, both programs return a verdict without a read outside
  the frame. A frame that is too short for the Ethernet header, for the IPv4 header or for a
  TCP header of 20 bytes at the offset given by \<open>ihl\<close> gets \<open>XDP_PASS\<close> and leaves the
  maps as they were. So does every frame of less than 14 + 20 + 20 bytes that is shorter
  than 34 bytes or has an \<open>ihl\<close> of at least 5.
\<close>

theorem short_frames_pass:
  "(\<exists>x s'. xdp_simple_firewall now fr s = Some (x, s'))
   \<and> (\<exists>x v'. xdp_firewall now fr v = Some (x, v'))
   \<and> (too_short fr \<longrightarrow>
        xdp_simple_firewall now fr s = Some (XDP_PASS, s) \<and>
        xdp_firewall now fr v = Some (XDP_PASS, v))
   \<and> (length fr < 14 + 20 + 20 \<and> (length fr < 14 + 20 \<or> 5 \<le> ihl fr) \<longrightarrow>
        xdp_simple_firewall now fr s = Some (XDP_PASS, s) \<and>
        xdp_firewall now fr v = Some (XDP_PASS, v))"
proof (intro conjI impI)
  show "\<exists>x s'. xdp_simple_firewall now fr s = Some (x, s')"
    by (cases "header_view fr") (auto simp: xdp_simple_firewall_view split: prod.splits)
  show "\<exists>x v'. xdp_firewall now fr v = Some (x, v')"
    by (cases "header_view fr") (auto simp: xdp_firewall_view Let_def split: prod.splits)
next
  assume "too_short fr"
  then show "xdp_simple_firewall now fr s = Some (XDP_PASS, s)"
    and "xdp_firewall now fr v = Some (XDP_PASS, v)"
    by (simp_all add: xdp_simple_firewall_view xdp_firewall_view too_short_view)
next
  assume "length fr < 14 + 20 + 20 \<and> (length fr < 14 + 20 \<or> 5 \<le> ihl fr)"
  then have "too_short fr"
    by (auto simp: too_short_def sizeof_ethhdr_def sizeof_iphdr_def sizeof_tcphdr_def)
  then show "xdp_simple_firewall now fr s = Some (XDP_PASS, s)"
    and "xdp_firewall now fr v = Some (XDP_PASS, v)"
    by (simp_all add: xdp_simple_firewall_view xdp_firewall_view too_short_view)
qed

lemma cut_frame_facts: "length cut_frame = 40" "ihl cut_frame = 5"
  by (simp_all add: cut_frame_def syn_frame_def tcp_frame_def ihl_def sizeof_ethhdr_def)

theorem short_frames_pass_witness:
  "too_short cut_frame
   \<and> length cut_frame < 14 + 20 + 20 \<and> 5 \<le> ihl cut_frame
   \<and> xdp_simple_firewall 0 cut_frame over_limit_maps = Some (XDP_PASS, over_limit_maps)
   \<and> xdp_firewall 0 cut_frame init_maps_v2 = Some (XDP_PASS, init_maps_v2)"
proof -
  have h1: "too_short cut_frame"
    by (simp add: too_short_def cut_frame_facts sizeof_ethhdr_def sizeof_iphdr_def
        sizeof_tcphdr_def)
  have h2: "length cut_frame < 14 + 20 + 20" and h3: "5 \<le> ihl cut_frame"
    by (simp_all add: cut_frame_facts)
  show ?thesis
    using short_frames_pass [of 0 cut_frame over_limit_maps init_maps_v2] h1 h2 h3
    by blast
qed

text \<open>
  The claim as it was stated fails for a frame of 34 bytes with \<open>ihl = 0\<close>: the programs
  read the TCP flags from the bytes of the IPv4 header, take the frame for a pure SYN, and
  the eleventh copy is dropped.
\<close>

lemma replicate_burst:
  "replicate (Suc n) (t, fr) = (t, fr) # zip (replicate n t) (replicate n fr)"
  by (simp add: zip_replicate)

theorem ihl0_frame_counterexample:
  "length ihl0_frame < 14 + 20 + 20
   \<and> header_view ihl0_frame = Some (ihl0_src, True)
   \<and> map_option fst (run_simple init_maps (replicate 11 (0, ihl0_frame))) =
       Some [XDP_PASS, XDP_PASS, XDP_PASS, XDP_PASS, XDP_PASS, XDP_PASS, XDP_PASS,
             XDP_PASS, XDP_PASS, XDP_PASS, XDP_DROP]"
proof -
  have len: "length ihl0_frame < 14 + 20 + 20" by (simp add: ihl0_frame_def)
  have "\<exists>s'. run_simple init_maps ((0, ihl0_frame) # zip (replicate 10 0) (replicate 10 ihl0_frame)) =
          Some (map (\<lambda>k. if k < 10 then XDP_PASS else XDP_DROP)
                  [0..<Suc (length (replicate 10 (0::u64)))], s')"
    by (rule run_simple_burst [where src = ihl0_src])
      (simp_all add: header_view_ihl0_frame opens_window_def init_maps_def MAX_ENTRIES_def
        fcard_fempty)
  moreover have "replicate 11 (0 :: u64, ihl0_frame) =
      (0, ihl0_frame) # zip (replicate 10 0) (replicate 10 ihl0_frame)"
    using replicate_burst [of 10 0 ihl0_frame] by simp
  moreover have "map (\<lambda>k. if k < 10 then XDP_PASS else XDP_DROP)
                  [0..<Suc (length (replicate 10 (0::u64)))] =
       [XDP_PASS, XDP_PASS, XDP_PASS, XDP_PASS, XDP_PASS, XDP_PASS, XDP_PASS,
             XDP_PASS, XDP_PASS, XDP_PASS, XDP_DROP]"
    by (simp add: upt_rec)
  ultimately have "map_option fst (run_simple init_maps (replicate 11 (0, ihl0_frame))) =
       Some [XDP_PASS, XDP_PASS, XDP_PASS, XDP_PASS, XDP_PASS, XDP_PASS, XDP_PASS,
             XDP_PASS, XDP_PASS, XDP_PASS, XDP_DROP]"
    by auto
  with len header_view_ihl0_frame show ?thesis by (intro conjI)
qed

subsection \<open>Eleven SYNs on fresh maps\<close>

lemma replicate_11: "replicate 11 x = [x, x, x, x, x, x, x, x, x, x, x]"
  by (simp add: eval_nat_numeral)

lemma run_simple_eleven_syns:
  "run_simple init_maps (replicate 11 (0, syn_frame)) =
     Some ([XDP_PASS, XDP_PASS, XDP_PASS, XDP_PASS, XDP_PASS, XDP_PASS, XDP_PASS,
            XDP_PASS, XDP_PASS, XDP_PASS, XDP_DROP], burst_maps)"
  unfolding replicate_11
  by (simp add: xdp_simple_firewall_view header_view_syn_frame
      check_rate_limit_def bpf_map_update_def init_maps_def burst_maps_def
      stats_incr_def TIME_WINDOW_NS_def THRESHOLD_def MAX_ENTRIES_def fcard_fempty Let_def)

lemma run_v2_eleven_syns:
  "run_v2 init_maps_v2 (replicate 11 (0, syn_frame)) =
     Some ([XDP_PASS, XDP_PASS, XDP_PASS, XDP_PASS, XDP_PASS, XDP_PASS, XDP_PASS,
            XDP_PASS, XDP_PASS, XDP_PASS, XDP_DROP], blocked_maps_v2)"
  unfolding replicate_11
  by (simp add: xdp_firewall_view header_view_syn_frame
      check_rate_limit_def bpf_map_update_def init_maps_v2_def blocked_maps_v2_def
      stats_incr_def TIME_WINDOW_NS_def THRESHOLD_def MAX_ENTRIES_def fcard_fempty Let_def)

subsection \<open>A source in \<open>ip_blocked_map\<close>\<close>

lemma check_rate_limit_other:
  "a \<noteq> src \<Longrightarrow> fmlookup (snd (check_rate_limit now a m)) src = fmlookup m src"
  by (simp add: check_rate_limit_def bpf_map_update_def Let_def split: option.splits)

lemma fmdom_bpf_map_update:
  "k |\<in>| fmdom m \<Longrightarrow> k |\<in>| fmdom (bpf_map_update m a x)"
  by (simp add: bpf_map_update_def)

lemma xdp_firewall_blocked_step:
  assumes blocked: "src |\<in>| fmdom (ip_blocked_map v)"
  shows "\<exists>x v1. xdp_firewall now fr v = Some (x, v1) \<and>
           src |\<in>| fmdom (ip_blocked_map v1) \<and>
           fmlookup (rate_limit_map v1) src = fmlookup (rate_limit_map v) src \<and>
           (header_view fr = Some (src, True) \<longrightarrow> x = XDP_DROP) \<and>
           (header_view fr = Some (src, False) \<longrightarrow> x = XDP_PASS)"
proof (cases "header_view fr")
  case None
  with blocked show ?thesis by (simp add: xdp_firewall_view)
next
  case (Some p)
  obtain a is_syn where p: "p = (a, is_syn)" by (cases p)
  show ?thesis
  proof (cases "is_syn \<and> a |\<notin>| fmdom (ip_blocked_map v)")
    case False
    with blocked Some p show ?thesis by (auto simp: xdp_firewall_view Let_def)
  next
    case True
    with blocked have ne: "a \<noteq> src" by auto
    obtain r m where crl: "check_rate_limit now a (rate_limit_map v) = (r, m)"
      by (cases "check_rate_limit now a (rate_limit_map v)")
    have m: "fmlookup m src = fmlookup (rate_limit_map v) src"
      using check_rate_limit_other [OF ne, of now "rate_limit_map v"] crl by simp
    from True Some p have fr: "header_view fr = Some (a, True)" by simp
    show ?thesis
      using xdp_firewall_syn [OF fr _ crl] True blocked m ne
      by (auto simp: fr fmdom_bpf_map_update)
  qed
qed

text \<open>
  C3 (as amended). In \<open>xdp_firewall\<close>, once a source is a key of \<open>ip_blocked_map\<close>, it
  stays one through every run of frames, every pure SYN from it gets \<open>XDP_DROP\<close>, and its
  record in \<open>rate_limit_map\<close> is never changed again. Its frames that are not a pure SYN
  get \<open>XDP_PASS\<close>: the lookup in \<open>ip_blocked_map\<close> is inside the branch for pure SYNs.
\<close>

theorem blocked_source_syn_dropped:
  assumes "src |\<in>| fmdom (ip_blocked_map v)"
  shows "\<exists>vs v'. run_v2 v es = Some (vs, v') \<and>
           src |\<in>| fmdom (ip_blocked_map v') \<and>
           fmlookup (rate_limit_map v') src = fmlookup (rate_limit_map v) src \<and>
           list_all2 (\<lambda>e x. (header_view (snd e) = Some (src, True) \<longrightarrow> x = XDP_DROP) \<and>
                            (header_view (snd e) = Some (src, False) \<longrightarrow> x = XDP_PASS)) es vs"
  using assms
proof (induction es arbitrary: v)
  case Nil
  then show ?case by simp
next
  case (Cons e es)
  obtain t fr where e: "e = (t, fr)" by (cases e)
  from xdp_firewall_blocked_step [OF Cons.prems, of t fr]
  obtain x v1 where step: "xdp_firewall t fr v = Some (x, v1)"
    and b1: "src |\<in>| fmdom (ip_blocked_map v1)"
    and m1: "fmlookup (rate_limit_map v1) src = fmlookup (rate_limit_map v) src"
    and x: "(header_view fr = Some (src, True) \<longrightarrow> x = XDP_DROP) \<and>
           (header_view fr = Some (src, False) \<longrightarrow> x = XDP_PASS)"
    by blast
  from Cons.IH [OF b1] obtain vs v' where rest: "run_v2 v1 es = Some (vs, v')"
    and b': "src |\<in>| fmdom (ip_blocked_map v')"
    and m': "fmlookup (rate_limit_map v') src = fmlookup (rate_limit_map v1) src"
    and all: "list_all2 (\<lambda>e x. (header_view (snd e) = Some (src, True) \<longrightarrow> x = XDP_DROP) \<and>
                            (header_view (snd e) = Some (src, False) \<longrightarrow> x = XDP_PASS)) es vs"
    by blast
  show ?case
    using step rest b' m' m1 x all by (simp add: e)
qed

lemma blocked_maps_v2_blocked: "sample_src |\<in>| fmdom (ip_blocked_map blocked_maps_v2)"
  by (simp add: blocked_maps_v2_def)

theorem blocked_source_syn_dropped_witness:
  "sample_src |\<in>| fmdom (ip_blocked_map blocked_maps_v2)
   \<and> (\<exists>v'. run_v2 blocked_maps_v2 [(0, syn_frame), (1, ack_frame), (2, syn_frame)] =
              Some ([XDP_DROP, XDP_PASS, XDP_DROP], v') \<and>
            sample_src |\<in>| fmdom (ip_blocked_map v') \<and>
            fmlookup (rate_limit_map v') sample_src = Some \<lparr>last_ts = 0, count = 11\<rparr>)"
proof -
  from blocked_source_syn_dropped [OF blocked_maps_v2_blocked,
      of "[(0, syn_frame), (1, ack_frame), (2, syn_frame)]"]
  obtain vs v' where run: "run_v2 blocked_maps_v2 [(0, syn_frame), (1, ack_frame), (2, syn_frame)] =
        Some (vs, v')"
    and b: "sample_src |\<in>| fmdom (ip_blocked_map v')"
    and m: "fmlookup (rate_limit_map v') sample_src =
              fmlookup (rate_limit_map blocked_maps_v2) sample_src"
    and all: "list_all2 (\<lambda>e x. (header_view (snd e) = Some (sample_src, True) \<longrightarrow> x = XDP_DROP) \<and>
                (header_view (snd e) = Some (sample_src, False) \<longrightarrow> x = XDP_PASS))
              [(0 :: u64, syn_frame), (1, ack_frame), (2, syn_frame)] vs"
    by blast
  from all have "vs = [XDP_DROP, XDP_PASS, XDP_DROP]"
    by (auto simp: list_all2_Cons1 header_view_syn_frame header_view_ack_frame)
  with run b m blocked_maps_v2_blocked show ?thesis
    by (simp add: blocked_maps_v2_def)
qed

text \<open>
  The claim as it was stated fails: after eleven SYNs the sample source is blocked, and its
  next frame, an ACK, gets \<open>XDP_PASS\<close>.
\<close>

theorem blocked_source_ack_counterexample:
  "run_v2 init_maps_v2 (replicate 11 (0, syn_frame)) =
     Some ([XDP_PASS, XDP_PASS, XDP_PASS, XDP_PASS, XDP_PASS, XDP_PASS, XDP_PASS,
            XDP_PASS, XDP_PASS, XDP_PASS, XDP_DROP], blocked_maps_v2)
   \<and> sample_src |\<in>| fmdom (ip_blocked_map blocked_maps_v2)
   \<and> header_view ack_frame = Some (sample_src, False)
   \<and> xdp_firewall 0 ack_frame blocked_maps_v2 =
       Some (XDP_PASS, blocked_maps_v2\<lparr>stats_map := [12]\<rparr>)"
proof -
  have "xdp_firewall 0 ack_frame blocked_maps_v2 =
       Some (XDP_PASS, blocked_maps_v2\<lparr>stats_map := [12]\<rparr>)"
    by (simp add: xdp_firewall_view header_view_ack_frame blocked_maps_v2_def stats_incr_def)
  then show ?thesis
    using run_v2_eleven_syns blocked_maps_v2_blocked header_view_ack_frame by (intro conjI)
qed

subsection \<open>The counters\<close>

lemma xdp_simple_firewall_counters:
  assumes "xdp_simple_firewall now fr s = Some (x, s1)" and "stats_map s = [n, d]"
  shows "stats_map s1 = [n + (if is_pure_syn fr then 1 else 0),
                         d + (if x = XDP_DROP then 1 else 0)]
         \<and> (x = XDP_DROP \<longrightarrow> is_pure_syn fr)"
  using assms
  by (auto simp: xdp_simple_firewall_view is_pure_syn_def stats_incr_def Let_def
      split: option.splits prod.splits if_splits)

lemma run_simple_counters:
  assumes "run_simple s es = Some (vs, s')" and "stats_map s = [n, d]"
  shows "stats_map s' = [n + of_nat (count_syn es), d + of_nat (count_list vs XDP_DROP)]
         \<and> count_list vs XDP_DROP \<le> count_syn es"
  using assms
proof (induction es arbitrary: s vs n d)
  case Nil
  then show ?case by (simp add: count_syn_def)
next
  case (Cons e es)
  obtain t fr where e: "e = (t, fr)" by (cases e)
  from Cons.prems e obtain x s1 ws where step: "xdp_simple_firewall t fr s = Some (x, s1)"
    and rest: "run_simple s1 es = Some (ws, s')" and vs: "vs = x # ws"
    by (auto simp: bind_eq_Some_conv)
  note c = xdp_simple_firewall_counters [OF step Cons.prems(2)]
  from Cons.IH [OF rest conjunct1 [OF c]] c
  show ?case by (auto simp: e vs count_syn_def)
qed

lemma xdp_firewall_counters:
  assumes "xdp_firewall now fr v = Some (x, v1)" and "stats_map v = [n]"
  shows "stats_map v1 = [n + (if is_tcp fr then 1 else 0)]
         \<and> fcard (fmdom (ip_blocked_map v1))
             \<le> fcard (fmdom (ip_blocked_map v)) + (if is_tcp fr then 1 else 0)"
  using assms
  by (auto simp: xdp_firewall_view is_tcp_def stats_incr_def Let_def bpf_map_update_def
      fcard_finsert_if split: option.splits prod.splits if_splits)

lemma run_v2_counters:
  assumes "run_v2 v es = Some (vs, v')" and "stats_map v = [n]"
  shows "stats_map v' = [n + of_nat (count_tcp es)]
         \<and> fcard (fmdom (ip_blocked_map v'))
             \<le> fcard (fmdom (ip_blocked_map v)) + count_tcp es"
  using assms
proof (induction es arbitrary: v vs n)
  case Nil
  then show ?case by (simp add: count_tcp_def)
next
  case (Cons e es)
  obtain t fr where e: "e = (t, fr)" by (cases e)
  from Cons.prems e obtain x v1 ws where step: "xdp_firewall t fr v = Some (x, v1)"
    and rest: "run_v2 v1 es = Some (ws, v')" and vs: "vs = x # ws"
    by (auto simp: bind_eq_Some_conv)
  note c = xdp_firewall_counters [OF step Cons.prems(2)]
  from Cons.IH [OF rest conjunct1 [OF c]] c
  show ?case by (auto simp: e vs count_tcp_def)
qed

lemma unat_of_nat_u64: "n < 2 ^ 64 \<Longrightarrow> unat (of_nat n :: u64) = n"
  by (simp add: unat_of_nat)

lemma count_syn_le: "count_syn es \<le> length es"
  by (simp add: count_syn_def)

lemma count_tcp_le: "count_tcp es \<le> length es"
  by (simp add: count_tcp_def)

lemma xdp_only_counters:
  assumes "run_simple init_maps es = Some (vs, s)" and "length es < 2 ^ 64"
  shows "stats_value (stats_map s) 0 = int (count_syn es)"
    and "stats_value (stats_map s) 1 = int (count_list vs XDP_DROP)"
    and "count_list vs XDP_DROP \<le> count_syn es"
proof -
  have c: "stats_map s = [of_nat (count_syn es), of_nat (count_list vs XDP_DROP)]"
    and le: "count_list vs XDP_DROP \<le> count_syn es"
    using run_simple_counters [OF assms(1), of 0 0] by (simp_all add: init_maps_def)
  from le assms(2) count_syn_le [of es]
  have "count_syn es < 2 ^ 64" "count_list vs XDP_DROP < 2 ^ 64" by simp_all
  then show "stats_value (stats_map s) 0 = int (count_syn es)"
    and "stats_value (stats_map s) 1 = int (count_list vs XDP_DROP)"
    by (simp_all add: c stats_value_def unat_of_nat_u64)
  show "count_list vs XDP_DROP \<le> count_syn es" by (rule le)
qed

lemma v2_counters:
  assumes "run_v2 init_maps_v2 es = Some (vs, v)" and "length es < 2 ^ 64"
  shows "stats_value (stats_map v) 0 = int (count_tcp es)"
    and "blocked_len v \<le> int (count_tcp es)"
proof -
  have c: "stats_map v = [of_nat (count_tcp es)]"
    and le: "fcard (fmdom (ip_blocked_map v)) \<le> count_tcp es"
    using run_v2_counters [OF assms(1), of 0] by (simp_all add: init_maps_v2_def fcard_fempty)
  from assms(2) count_tcp_le [of es] have "count_tcp es < 2 ^ 64" by simp
  then show "stats_value (stats_map v) 0 = int (count_tcp es)"
    by (simp add: c stats_value_def unat_of_nat_u64)
  show "blocked_len v \<le> int (count_tcp es)" using le by (simp add: blocked_len_def)
qed

text \<open>
  C2. The claim holds for \<open>xdp_simple_firewall\<close> (lemma \<open>xdp_only_counters\<close>). In
  \<open>xdp_firewall\<close> the increment of slot 0 is outside the test for a pure SYN: one ACK frame
  on fresh maps leaves the counter that the script reads as \<open>syn_total\<close> at 1, with no
  pure SYN seen.
\<close>

theorem syn_total_counts_every_tcp_frame:
  "is_tcp ack_frame \<and> \<not> is_pure_syn ack_frame
   \<and> count_syn [(0, ack_frame)] = 0
   \<and> run_v2 init_maps_v2 [(0, ack_frame)] =
       Some ([XDP_PASS], init_maps_v2\<lparr>stats_map := [1]\<rparr>)
   \<and> stats_value (stats_map (init_maps_v2\<lparr>stats_map := [1]\<rparr>)) 0 = 1"
  by (simp add: is_tcp_def is_pure_syn_def count_syn_def header_view_ack_frame
      xdp_firewall_view init_maps_v2_def stats_incr_def stats_value_def)

subsection \<open>The success rate\<close>

lemma success_rate_value:
  "success_rate accepted total_syn =
     Inr (if total_syn > 0 then of_int accepted / of_int total_syn * 100 else 0)"
  by (simp add: success_rate_def py_truediv_def py_bind_def)

lemma success_rate_range:
  assumes "0 \<le> d" and "d \<le> t"
  shows "\<exists>r. success_rate (t - d) t = Inr r \<and> 0 \<le> r \<and> r \<le> 100"
proof (cases "t > 0")
  case False
  then show ?thesis by (simp add: success_rate_value)
next
  case True
  define q where "q = real_of_int (t - d) / real_of_int t"
  have "0 \<le> q" using assms True by (simp add: q_def)
  moreover have "q \<le> 1" using assms True by (simp add: q_def)
  ultimately have "0 \<le> q * 100" "q * 100 \<le> 100" by simp_all
  moreover have "success_rate (t - d) t = Inr (q * 100)"
    using True by (simp only: success_rate_value q_def if_True)
  ultimately show ?thesis by blast
qed

lemma run_simple_admitted:
  assumes "run_simple s es = Some (vs, s')"
  shows "count_admitted es vs + count_list vs XDP_DROP = count_syn es"
  using assms
proof (induction es arbitrary: s vs)
  case Nil
  then show ?case by (simp add: count_admitted_def count_syn_def)
next
  case (Cons e es)
  obtain t fr where e: "e = (t, fr)" by (cases e)
  from Cons.prems e obtain x s1 ws where step: "xdp_simple_firewall t fr s = Some (x, s1)"
    and rest: "run_simple s1 es = Some (ws, s')" and vs: "vs = x # ws"
    by (auto simp: bind_eq_Some_conv)
  from step have "x = XDP_DROP \<longrightarrow> is_pure_syn fr"
    by (auto simp: xdp_simple_firewall_view is_pure_syn_def Let_def
        split: option.splits prod.splits if_splits)
  with Cons.IH [OF rest] show ?case
    by (cases x) (auto simp: e vs count_admitted_def count_syn_def)
qed

lemma pps_of_Nil_iff [simp]: "pps_of prev_total xs = [] \<longleftrightarrow> xs = []"
  by (cases xs) simp_all

lemma length_pps_of: "length (pps_of prev_total xs) = length xs"
  by (induction xs arbitrary: prev_total) simp_all

lemma count_list_replicate: "count_list (replicate n x) x = n"
  by (induction n) simp_all

lemma monitor_xdp_only_last:
  "\<exists>r. monitor_xdp_only (pre @ [(cpu, s)]) = Inr r \<and>
        SYN_Total r = stats_value (stats_map s) 0 \<and>
        SYN_Blocked r = stats_value (stats_map s) 1 \<and>
        SYN_Accepted r = stats_value (stats_map s) 0 - stats_value (stats_map s) 1 \<and>
        success_rate (stats_value (stats_map s) 0 - stats_value (stats_map s) 1)
          (stats_value (stats_map s) 0) = Inr (Success_Rate r)"
  by (simp add: monitor_xdp_only_def summary_def py_bind_def py_last_def py_truediv_def
      success_rate_value Let_def)

lemma monitor_v2_last:
  "\<exists>r. monitor_v2 (pre @ [(cpu, v)]) = Inr r \<and>
        SYN_Total r = stats_value (stats_map v) 0 \<and>
        SYN_Blocked r = blocked_len v \<and>
        SYN_Accepted r = stats_value (stats_map v) 0 - blocked_len v \<and>
        success_rate (stats_value (stats_map v) 0 - blocked_len v)
          (stats_value (stats_map v) 0) = Inr (Success_Rate r)"
  by (simp add: monitor_v2_def summary_def py_bind_def py_last_def py_truediv_def
      success_rate_value Let_def)

lemma xdp_only_success_rate:
  assumes run: "run_simple init_maps es = Some (vs, s)" and len: "length es < 2 ^ 64"
  shows "\<exists>r. monitor_xdp_only (pre @ [(cpu, s)]) = Inr r \<and>
           Success_Rate r =
             (if count_syn es = 0 then 0
              else real (count_admitted es vs) / real (count_syn es) * 100) \<and>
           0 \<le> Success_Rate r \<and> Success_Rate r \<le> 100"
proof -
  let ?T = "stats_value (stats_map s) 0" and ?D = "stats_value (stats_map s) 1"
  note c = xdp_only_counters [OF run len]
  from run_simple_admitted [OF run]
  have adm: "int (count_admitted es vs) = ?T - ?D" using c by simp
  from monitor_xdp_only_last [of pre cpu s]
  obtain r where r: "monitor_xdp_only (pre @ [(cpu, s)]) = Inr r"
    and rate: "success_rate (?T - ?D) ?T = Inr (Success_Rate r)"
    by blast
  from rate adm c(1)
  have "success_rate (int (count_admitted es vs)) (int (count_syn es)) = Inr (Success_Rate r)"
    by simp
  then have val: "Success_Rate r =
      (if count_syn es = 0 then 0
       else real (count_admitted es vs) / real (count_syn es) * 100)"
    by (auto simp: success_rate_value split: if_splits)
  from success_rate_range [of ?D ?T] c rate
  have "0 \<le> Success_Rate r \<and> Success_Rate r \<le> 100" by auto
  with r val show ?thesis by blast
qed

lemma v2_success_rate:
  assumes run: "run_v2 init_maps_v2 es = Some (vs, v)" and len: "length es < 2 ^ 64"
  shows "\<exists>r. monitor_v2 (pre @ [(cpu, v)]) = Inr r \<and>
           Success_Rate r =
             (if count_tcp es = 0 then 0
              else (real (count_tcp es) - real (fcard (fmdom (ip_blocked_map v))))
                     / real (count_tcp es) * 100) \<and>
           0 \<le> Success_Rate r \<and> Success_Rate r \<le> 100"
proof -
  let ?T = "stats_value (stats_map v) 0" and ?B = "blocked_len v"
  note c = v2_counters [OF run len]
  from monitor_v2_last [of pre cpu v]
  obtain r where r: "monitor_v2 (pre @ [(cpu, v)]) = Inr r"
    and rate: "success_rate (?T - ?B) ?T = Inr (Success_Rate r)"
    by blast
  from rate c(1)
  have "success_rate (int (count_tcp es) - int (fcard (fmdom (ip_blocked_map v))))
          (int (count_tcp es)) = Inr (Success_Rate r)"
    by (simp add: blocked_len_def)
  then have val: "Success_Rate r =
      (if count_tcp es = 0 then 0
       else (real (count_tcp es) - real (fcard (fmdom (ip_blocked_map v))))
              / real (count_tcp es) * 100)"
    by (auto simp: success_rate_value split: if_splits)
  have "0 \<le> ?B" by (simp add: blocked_len_def)
  from success_rate_range [OF this, of ?T] c rate
  have "0 \<le> Success_Rate r \<and> Success_Rate r \<le> 100" by auto
  with r val show ?thesis by blast
qed

subsection \<open>Fifty SYNs from one source\<close>

lemma run_simple_append:
  "run_simple s es1 = Some (vs1, s1) \<Longrightarrow> run_simple s1 es2 = Some (vs2, s2) \<Longrightarrow>
   run_simple s (es1 @ es2) = Some (vs1 @ vs2, s2)"
proof (induction es1 arbitrary: s vs1)
  case Nil
  then show ?case by simp
next
  case (Cons e es1)
  obtain t fr where e: "e = (t, fr)" by (cases e)
  from Cons.prems(1) e obtain x s' ws where step: "xdp_simple_firewall t fr s = Some (x, s')"
    and rest: "run_simple s' es1 = Some (ws, s1)" and vs: "vs1 = x # ws"
    by (auto simp: bind_eq_Some_conv)
  from Cons.IH [OF rest Cons.prems(2)] show ?case by (simp add: e step vs)
qed

lemma run_v2_append:
  "run_v2 v es1 = Some (vs1, v1) \<Longrightarrow> run_v2 v1 es2 = Some (vs2, v2) \<Longrightarrow>
   run_v2 v (es1 @ es2) = Some (vs1 @ vs2, v2)"
proof (induction es1 arbitrary: v vs1)
  case Nil
  then show ?case by simp
next
  case (Cons e es1)
  obtain t fr where e: "e = (t, fr)" by (cases e)
  from Cons.prems(1) e obtain x v' ws where step: "xdp_firewall t fr v = Some (x, v')"
    and rest: "run_v2 v' es1 = Some (ws, v1)" and vs: "vs1 = x # ws"
    by (auto simp: bind_eq_Some_conv)
  from Cons.IH [OF rest Cons.prems(2)] show ?case by (simp add: e step vs)
qed

lemma run_v2_blocked_syns:
  assumes "header_view fr = Some (src, True)"
  shows "run_v2 \<lparr>rate_limit_map = m, stats_map = [c], ip_blocked_map = fmupd src x b\<rparr>
           (replicate n (t, fr)) =
         Some (replicate n XDP_DROP,
               \<lparr>rate_limit_map = m, stats_map = [c + of_nat n],
                ip_blocked_map = fmupd src x b\<rparr>)"
proof (induction n arbitrary: c)
  case 0
  then show ?case by simp
next
  case (Suc n)
  have "xdp_firewall t fr \<lparr>rate_limit_map = m, stats_map = [c], ip_blocked_map = fmupd src x b\<rparr> =
          Some (XDP_DROP, \<lparr>rate_limit_map = m, stats_map = [c + 1],
                           ip_blocked_map = fmupd src x b\<rparr>)"
    using xdp_firewall_blocked [OF assms, of "\<lparr>rate_limit_map = m, stats_map = [c],
        ip_blocked_map = fmupd src x b\<rparr>" t]
    by (simp add: stats_incr_def)
  then show ?case using Suc [of "c + 1"] by (simp add: add.assoc)
qed

lemma run_simple_over_limit_syns:
  assumes "header_view fr = Some (src, True)"
    and "10 \<le> unat c" and "unat c + n < 2 ^ 64"
  shows "run_simple \<lparr>rate_limit_map = fmupd src \<lparr>last_ts = t, count = c\<rparr> m,
                     stats_map = [a, d]\<rparr> (replicate n (t, fr)) =
         Some (replicate n XDP_DROP,
               \<lparr>rate_limit_map = fmupd src \<lparr>last_ts = t, count = c + of_nat n\<rparr> m,
                stats_map = [a + of_nat n, d + of_nat n]\<rparr>)"
  using assms(2,3)
proof (induction n arbitrary: c a d)
  case 0
  then show ?case by simp
next
  case (Suc n)
  let ?s = "\<lparr>rate_limit_map = fmupd src \<lparr>last_ts = t, count = c\<rparr> m, stats_map = [a, d]\<rparr>"
  from Suc.prems have small: "unat c + 1 < 2 ^ 64" by simp
  have crl: "check_rate_limit t src (rate_limit_map ?s) =
               (1, fmupd src \<lparr>last_ts = t, count = c + 1\<rparr> m)"
    using check_rate_limit_open [of "rate_limit_map ?s" src "\<lparr>last_ts = t, count = c\<rparr>" t]
      over_threshold_iff [OF small] Suc.prems
    by (simp add: TIME_WINDOW_NS_def)
  have step: "xdp_simple_firewall t fr ?s =
      Some (XDP_DROP, \<lparr>rate_limit_map = fmupd src \<lparr>last_ts = t, count = c + 1\<rparr> m,
                       stats_map = [a + 1, d + 1]\<rparr>)"
    using xdp_simple_firewall_syn [OF assms(1) crl] by (simp add: stats_incr_def)
  have "10 \<le> unat (c + 1)" "unat (c + 1) + n < 2 ^ 64"
    using Suc.prems unat_u64_succ [OF small] by simp_all
  from Suc.IH [OF this, of "a + 1" "d + 1"] show ?case
    by (simp add: step add.assoc)
qed

lemma replicate_50: "replicate 50 x = replicate 11 x @ replicate 39 x"
  by (simp flip: replicate_add)

lemma run_simple_fifty_syns:
  "run_simple init_maps (replicate 50 (0, syn_frame)) =
     Some (replicate 10 XDP_PASS @ replicate 40 XDP_DROP, flood_maps)"
proof -
  have "run_simple burst_maps (replicate 39 (0, syn_frame)) =
          Some (replicate 39 XDP_DROP, flood_maps)"
    using run_simple_over_limit_syns [OF header_view_syn_frame, of 11 39 0 fmempty 11 1]
    by (simp add: burst_maps_def flood_maps_def)
  from run_simple_append [OF run_simple_eleven_syns this]
  have "run_simple init_maps (replicate 50 (0, syn_frame)) =
     Some ([XDP_PASS, XDP_PASS, XDP_PASS, XDP_PASS, XDP_PASS, XDP_PASS, XDP_PASS,
            XDP_PASS, XDP_PASS, XDP_PASS, XDP_DROP] @ replicate 39 XDP_DROP, flood_maps)"
    by (simp only: replicate_50)
  moreover have "replicate 10 XDP_PASS @ replicate 40 XDP_DROP =
     [XDP_PASS, XDP_PASS, XDP_PASS, XDP_PASS, XDP_PASS, XDP_PASS, XDP_PASS,
            XDP_PASS, XDP_PASS, XDP_PASS, XDP_DROP] @ replicate 39 XDP_DROP"
    by (simp add: eval_nat_numeral)
  ultimately show ?thesis by simp
qed

lemma run_v2_fifty_syns:
  "run_v2 init_maps_v2 (replicate 50 (0, syn_frame)) =
     Some (replicate 10 XDP_PASS @ replicate 40 XDP_DROP, flood_maps_v2)"
proof -
  have "run_v2 blocked_maps_v2 (replicate 39 (0, syn_frame)) =
          Some (replicate 39 XDP_DROP, flood_maps_v2)"
    using run_v2_blocked_syns [OF header_view_syn_frame,
        of "fmupd sample_src \<lparr>last_ts = 0, count = 11\<rparr> fmempty" 11 1 fmempty 39 0]
    by (simp add: blocked_maps_v2_def flood_maps_v2_def)
  from run_v2_append [OF run_v2_eleven_syns this]
  have "run_v2 init_maps_v2 (replicate 50 (0, syn_frame)) =
     Some ([XDP_PASS, XDP_PASS, XDP_PASS, XDP_PASS, XDP_PASS, XDP_PASS, XDP_PASS,
            XDP_PASS, XDP_PASS, XDP_PASS, XDP_DROP] @ replicate 39 XDP_DROP, flood_maps_v2)"
    by (simp only: replicate_50)
  moreover have "replicate 10 XDP_PASS @ replicate 40 XDP_DROP =
     [XDP_PASS, XDP_PASS, XDP_PASS, XDP_PASS, XDP_PASS, XDP_PASS, XDP_PASS,
            XDP_PASS, XDP_PASS, XDP_PASS, XDP_DROP] @ replicate 39 XDP_DROP"
    by (simp add: eval_nat_numeral)
  ultimately show ?thesis by simp
qed

lemma monitor_v2_flood:
  "monitor_v2 [(0, flood_maps_v2)] =
     Inr \<lparr>SYN_Total = 50, SYN_Blocked = 1, SYN_Accepted = 49, Success_Rate = 98,
          Avg_CPU = 0, Avg_PPS = 50\<rparr>"
  by (simp add: monitor_v2_def summary_def success_rate_def py_bind_def py_last_def
      py_truediv_def stats_value_def blocked_len_def flood_maps_v2_def fcard_finsert_if
      fcard_fempty)

lemma monitor_xdp_only_flood:
  "monitor_xdp_only [(0, flood_maps)] =
     Inr \<lparr>SYN_Total = 50, SYN_Blocked = 40, SYN_Accepted = 10, Success_Rate = 20,
          Avg_CPU = 0, Avg_PPS = 50\<rparr>"
  by (simp add: monitor_xdp_only_def summary_def success_rate_def py_bind_def py_last_def
      py_truediv_def stats_value_def flood_maps_def)

text \<open>
  C6. The success rate is \<open>accepted / total * 100\<close> for a positive total and 0 otherwise,
  the division never raises, and the value lies between 0 and 100 (lemmas
  \<open>success_rate_value\<close>, \<open>xdp_only_success_rate\<close>, \<open>v2_success_rate\<close>). In
  \<open>XDP_only.py\<close> it is the share of admitted SYNs. In
  \<open>xdp_firewall_shim_con_metriche_v2.py\<close> it is not: the script subtracts the number of
  keys of \<open>ip_blocked_map\<close>, not the number of dropped SYNs. After 50 SYNs from one source
  on fresh maps, 10 of them admitted and 40 dropped, it reports 49 accepted and a success
  rate of 98, where \<open>XDP_only.py\<close> reports 10 accepted and 20.
\<close>

theorem v2_success_rate_counts_blocked_sources:
  "count_syn (replicate 50 (0, syn_frame)) = 50
   \<and> run_v2 init_maps_v2 (replicate 50 (0, syn_frame)) =
       Some (replicate 10 XDP_PASS @ replicate 40 XDP_DROP, flood_maps_v2)
   \<and> count_admitted (replicate 50 (0, syn_frame))
        (replicate 10 XDP_PASS @ replicate 40 XDP_DROP) = 10
   \<and> monitor_v2 [(0, flood_maps_v2)] =
       Inr \<lparr>SYN_Total = 50, SYN_Blocked = 1, SYN_Accepted = 49, Success_Rate = 98,
            Avg_CPU = 0, Avg_PPS = 50\<rparr>
   \<and> run_simple init_maps (replicate 50 (0, syn_frame)) =
       Some (replicate 10 XDP_PASS @ replicate 40 XDP_DROP, flood_maps)
   \<and> monitor_xdp_only [(0, flood_maps)] =
       Inr \<lparr>SYN_Total = 50, SYN_Blocked = 40, SYN_Accepted = 10, Success_Rate = 20,
            Avg_CPU = 0, Avg_PPS = 50\<rparr>"
proof -
  have syn: "is_pure_syn syn_frame" by (simp add: is_pure_syn_def header_view_syn_frame)
  then have c1: "count_syn (replicate 50 (0, syn_frame)) = 50"
    by (simp add: count_syn_def)
  have "count_admitted (replicate 50 (0, syn_frame))
          (replicate 10 XDP_PASS @ replicate 40 XDP_DROP) =
        count_syn (replicate 50 (0, syn_frame)) -
          count_list (replicate 10 XDP_PASS @ replicate 40 XDP_DROP) XDP_DROP"
    using run_simple_admitted [OF run_simple_fifty_syns] by simp
  also have "count_list (replicate 10 XDP_PASS @ replicate 40 XDP_DROP) XDP_DROP = 40"
    by (simp add: count_list_replicate)
  finally have c2: "count_admitted (replicate 50 (0, syn_frame))
          (replicate 10 XDP_PASS @ replicate 40 XDP_DROP) = 10"
    using c1 by simp
  show ?thesis
    by (intro conjI c1 c2 run_v2_fifty_syns run_simple_fifty_syns monitor_v2_flood
        monitor_xdp_only_flood)
qed

subsection \<open>The summary of a run without samples\<close>

lemma summary_means:
  assumes "syn_totals \<noteq> []" "syn_drops \<noteq> []" "cpu_usages \<noteq> []" "pps_rates \<noteq> []"
  shows "\<exists>r. summary syn_totals syn_drops cpu_usages pps_rates = Inr r \<and>
           Avg_CPU r = sum_list cpu_usages / real (length cpu_usages) \<and>
           Avg_PPS r = of_int (sum_list pps_rates) / real (length pps_rates)"
  using assms
  by (simp add: summary_def py_bind_def py_last_def py_truediv_def success_rate_def Let_def)

lemma monitor_iptables_summary_means:
  assumes "syn_accepts \<noteq> []" "syn_drops \<noteq> []"
  shows "\<exists>r. monitor_iptables_summary syn_accepts syn_drops cpu_usages pps_rates = Inr r \<and>
           Avg_CPU r = (if cpu_usages = [] then 0
                        else sum_list cpu_usages / real (length cpu_usages)) \<and>
           Avg_PPS r = (if pps_rates = [] then 0
                        else of_int (sum_list pps_rates) / real (length pps_rates))"
  using assms
  by (simp add: monitor_iptables_summary_def py_bind_def py_last_def py_truediv_def)

text \<open>
  C7. With samples in every list the two averages are the arithmetic means (lemmas
  \<open>summary_means\<close> and \<open>monitor_iptables_summary_means\<close>). With empty lists, as after
  an interrupt during the first \<open>time.sleep(1)\<close>, no summary is printed: all three scripts
  raise \<open>IndexError\<close>, \<open>iptables_only.py\<close> at \<open>syn_drops[-1]\<close> after its guards.
\<close>

theorem summary_raises_on_empty:
  "summary [] [] [] [] = Inl IndexError
   \<and> monitor_iptables_summary [] [] [] [] = Inl IndexError"
  by (simp add: summary_def monitor_iptables_summary_def py_bind_def py_last_def)

subsection \<open>The rules that \<open>setup_iptables\<close> installs\<close>

lemma setup_iptables_result:
  "setup_iptables t =
     Inr (t\<lparr>INPUT := [syn_limit_rule, syn_drop_rule, accept_rule],
            other_builtin := map (\<lambda>(c, rs). (c, [])) (other_builtin t),
            user_chains := []\<rparr>)"
  by (simp add: setup_iptables_def subprocess_run_def iptables_def py_bind_def no_rule_def
      syn_limit_rule_def syn_drop_rule_def accept_rule_def)

text \<open>
  C9. Whatever the table held before, \<open>setup_iptables\<close> leaves exactly three rules in
  \<open>INPUT\<close>, in this order: accept TCP SYNs within the limit of 10 per second with burst
  10, drop TCP SYNs, accept everything. So a TCP SYN is accepted if and only if the limit
  match lets it through, and every other packet is accepted by the third rule.
\<close>

theorem setup_iptables_rules:
  "\<exists>t'. setup_iptables t = Inr t' \<and>
         INPUT t' = [syn_limit_rule, syn_drop_rule, accept_rule] \<and>
         chain_verdict in_limit (INPUT t') p =
           Some (if p_proto p = ''tcp'' \<and> p_syn p
                 then (if in_limit syn_limit_rule then ACCEPT else DROP)
                 else ACCEPT)"
  by (simp add: setup_iptables_result rule_matches_def syn_limit_rule_def syn_drop_rule_def
      accept_rule_def)

theorem setup_iptables_rules_witness:
  "\<exists>t'. setup_iptables empty_table = Inr t' \<and>
         INPUT t' = [syn_limit_rule, syn_drop_rule, accept_rule] \<and>
         chain_verdict (\<lambda>r. False) (INPUT t') \<lparr>p_proto = ''tcp'', p_syn = True\<rparr> = Some DROP"
  using setup_iptables_rules [of empty_table "\<lambda>r. False" "\<lparr>p_proto = ''tcp'', p_syn = True\<rparr>"]
  by simp

end
